theory Spec2Isabelle
  imports Main
begin

section \<open>Backpressure controller (lib/queue/backpressure)\<close>

text \<open>
  The controller is a class with a configuration, a sticky state and a rejection counter.
  \<open>canAccept\<close> reads the live queue depth, which is passed here as an argument, and
  returns its answer together with the updated controller.
\<close>

record BackpressureConfig =
  maxQueueDepth :: int
  highWaterMark :: int
  lowWaterMark :: int

definition DEFAULT_CONFIG :: BackpressureConfig where
  "DEFAULT_CONFIG = \<lparr>maxQueueDepth = 1000, highWaterMark = 800, lowWaterMark = 200\<rparr>"

datatype BackpressureState = accepting | pressured | rejecting

record BackpressureController =
  config :: BackpressureConfig
  state :: BackpressureState
  totalRejected :: nat

definition new_BackpressureController :: BackpressureController where
  "new_BackpressureController = \<lparr>config = DEFAULT_CONFIG, state = accepting, totalRejected = 0\<rparr>"

definition canAccept :: "BackpressureController \<Rightarrow> int \<Rightarrow> bool \<times> BackpressureController" where
  "canAccept c depth =
     (if depth \<ge> maxQueueDepth (config c) then (False, c\<lparr>state := rejecting\<rparr>)
      else if depth \<ge> highWaterMark (config c) then (True, c\<lparr>state := pressured\<rparr>)
      else if depth \<le> lowWaterMark (config c) then (True, c\<lparr>state := accepting\<rparr>)
      else (True, c))"

definition recordRejection :: "BackpressureController \<Rightarrow> BackpressureController" where
  "recordRejection c = c\<lparr>totalRejected := totalRejected c + 1\<rparr>"

text \<open>A sequence of calls, one per observed depth; only the controller is kept.\<close>

fun canAccept_seq :: "BackpressureController \<Rightarrow> int list \<Rightarrow> BackpressureController" where
  "canAccept_seq c [] = c"
| "canAccept_seq c (d # ds) = canAccept_seq (snd (canAccept c d)) ds"

section \<open>Idempotency store (lib/queue/idempotency.ts)\<close>

text \<open>
  The store is a map from keys to entries. \<open>checkAndSet\<close> reads the clock twice
  (once for the liveness test, once for the new expiry); both readings are arguments.
\<close>

record IdempotencyEntry =
  stepId :: string
  expiresAt :: int

type_synonym IdempotencyStore = "string \<rightharpoonup> IdempotencyEntry"

record CheckResult =
  duplicate :: bool
  existingStepId :: "string option"

definition DEFAULT_TTL_MS :: int where
  "DEFAULT_TTL_MS = 5 * 60 * 1000"

definition generateKey :: "string \<Rightarrow> string \<Rightarrow> string" where
  "generateKey executionId nodeId = executionId @ '':'' @ nodeId"

definition checkAndSet ::
  "IdempotencyStore \<Rightarrow> string \<Rightarrow> string \<Rightarrow> int \<Rightarrow> int \<Rightarrow> int \<Rightarrow> CheckResult \<times> IdempotencyStore" where
  "checkAndSet store key sid ttlMs now1 now2 =
     (case store key of
        Some existing \<Rightarrow>
          if expiresAt existing > now1
          then (\<lparr>duplicate = True, existingStepId = Some (stepId existing)\<rparr>, store)
          else (\<lparr>duplicate = False, existingStepId = None\<rparr>,
                store(key \<mapsto> \<lparr>stepId = sid, expiresAt = now2 + ttlMs\<rparr>))
      | None \<Rightarrow>
          (\<lparr>duplicate = False, existingStepId = None\<rparr>,
           store(key \<mapsto> \<lparr>stepId = sid, expiresAt = now2 + ttlMs\<rparr>)))"

definition remove_key :: "IdempotencyStore \<Rightarrow> string \<Rightarrow> IdempotencyStore" where
  "remove_key store key = store(key := None)"

definition cleanup :: "IdempotencyStore \<Rightarrow> int \<Rightarrow> IdempotencyStore" where
  "cleanup store now =
     (\<lambda>key. case store key of
               None \<Rightarrow> None
             | Some entry \<Rightarrow> if expiresAt entry \<le> now then None else Some entry)"

section \<open>JSON values\<close>

text \<open>
  Workflow input, step results and execution output are JSON values. Numbers are modelled
  on the integers, with \<open>JNaN\<close> for the not-a-number value; fractional numbers and
  the infinities are outside this model. An object is an association list in key order.
\<close>

datatype jsval =
    JUndefined
  | JNull
  | JBool bool
  | JNaN
  | JNum int
  | JStr string
  | JArr "jsval list"
  | JObj "(string \<times> jsval) list"

text \<open>JavaScript truthiness (\<open>Boolean(v)\<close>, and the test of \<open>v && ...\<close> and \<open>v || ...\<close>).\<close>

fun Boolean_js :: "jsval \<Rightarrow> bool" where
  "Boolean_js JUndefined = False"
| "Boolean_js JNull = False"
| "Boolean_js (JBool b) = b"
| "Boolean_js JNaN = False"
| "Boolean_js (JNum n) = (n \<noteq> 0)"
| "Boolean_js (JStr s) = (s \<noteq> [])"
| "Boolean_js (JArr xs) = True"
| "Boolean_js (JObj kvs) = True"

text \<open>\<open>obj[key] = v\<close> on a record: an existing key keeps its place, a new key is appended.\<close>

fun set_key :: "(string \<times> jsval) list \<Rightarrow> string \<Rightarrow> jsval \<Rightarrow> (string \<times> jsval) list" where
  "set_key [] k v = [(k, v)]"
| "set_key ((k', v') # kvs) k v = (if k' = k then (k, v) # kvs else (k', v') # set_key kvs k v)"

section \<open>Workflow definitions (lib/types.ts) and worker types (lib/workers/worker-types.ts)\<close>

text \<open>
  Node types and row statuses are the strings the source compares against. Of a node's
  free-form \<open>config\<close>, the fields the engine core reads are kept, with the types the
  source casts them to; an absent field is \<open>None\<close>.
\<close>

record RetryConfig =
  cfg_maxRetries :: "int option"
  cfg_backoffMs :: "int option"
  cfg_backoffMultiplier :: "int option"

record NodeConfig =
  cfg_retry :: "RetryConfig option"

record WorkflowNode =
  node_id :: string
  node_type :: string
  node_label :: string
  node_config :: NodeConfig

record WorkflowEdge =
  edge_id :: string
  edge_source :: string
  edge_target :: string
  edge_conditionBranch :: "string option"

record WorkflowDefinition =
  nodes :: "WorkflowNode list"
  edges :: "WorkflowEdge list"

record RetryPolicy =
  maxRetries :: int
  backoffMs :: int
  backoffMultiplier :: int

definition DEFAULT_RETRY_POLICY :: RetryPolicy where
  "DEFAULT_RETRY_POLICY = \<lparr>maxRetries = 0, backoffMs = 1000, backoffMultiplier = 2\<rparr>"

record WorkerJob =
  job_id :: string
  job_executionId :: string
  job_stepId :: string
  job_node :: WorkflowNode
  job_input :: jsval
  job_previousResults :: "(string \<times> jsval) list"
  job_attempt :: int
  job_maxRetries :: int
  job_createdAt :: int

record WorkerResult =
  res_jobId :: string
  res_stepId :: string
  res_executionId :: string
  res_status :: string
  res_result :: jsval
  res_error :: "string option"
  res_durationMs :: int
  res_retryable :: "bool option"

section \<open>Persistent job queue (lib/queue/job-queue, PostgreSQL-backed)\<close>

text \<open>
  The \<open>JobQueue\<close> table is a list of rows in insertion order, with \<open>id\<close> as primary
  key; the queue object also holds its counters and the jobs it has announced on the
  in-process \<open>job\<close> event. An insert that violates the primary key throws inside
  \<open>enqueue\<close>, which catches it and announces the job all the same.
\<close>

record JobQueueRow =
  row_id :: string
  row_executionId :: string
  row_nodeId :: string
  row_nodeLabel :: string
  row_nodeType :: string
  row_payload :: WorkerJob
  row_status :: string
  row_attempts :: int
  row_maxAttempts :: int
  row_lockedAt :: "int option"
  row_lockedBy :: "string option"
  row_result :: jsval
  row_error :: "string option"
  row_createdAt :: int

record JobQueue =
  rows :: "JobQueueRow list"
  totalEnqueued :: int
  totalProcessed :: int
  totalFailed :: int
  announced :: "WorkerJob list"

definition new_JobQueue :: JobQueue where
  "new_JobQueue = \<lparr>rows = [], totalEnqueued = 0, totalProcessed = 0, totalFailed = 0, announced = []\<rparr>"

definition new_row :: "WorkerJob \<Rightarrow> int \<Rightarrow> JobQueueRow" where
  "new_row job now =
     \<lparr>row_id = job_id job,
      row_executionId = job_executionId job,
      row_nodeId = node_id (job_node job),
      row_nodeLabel = node_label (job_node job),
      row_nodeType = node_type (job_node job),
      row_payload = job,
      row_status = ''pending'',
      row_attempts = 0,
      row_maxAttempts = (if job_maxRetries job \<noteq> 0 then job_maxRetries job + 1 else 3),
      row_lockedAt = None,
      row_lockedBy = None,
      row_result = JNull,
      row_error = None,
      row_createdAt = now\<rparr>"

definition enqueue :: "JobQueue \<Rightarrow> WorkerJob \<Rightarrow> int \<Rightarrow> JobQueue" where
  "enqueue q job now =
     (if job_id job \<in> row_id ` set (rows q)
      then q\<lparr>totalEnqueued := totalEnqueued q + 1, announced := announced q @ [job]\<rparr>
      else q\<lparr>rows := rows q @ [new_row job now],
             totalEnqueued := totalEnqueued q + 1,
             announced := announced q @ [job]\<rparr>)"

text \<open>
  \<open>dequeue\<close> takes the oldest pending row, locks it for the worker and returns its
  payload; with no pending row it returns nothing.
\<close>

fun lock_first_pending :: "JobQueueRow list \<Rightarrow> string \<Rightarrow> int \<Rightarrow> (WorkerJob \<times> JobQueueRow list) option" where
  "lock_first_pending [] workerId now = None"
| "lock_first_pending (r # rs) workerId now =
     (if row_status r = ''pending''
      then Some (row_payload r,
                 r\<lparr>row_status := ''processing'', row_lockedAt := Some now,
                   row_lockedBy := Some workerId, row_attempts := row_attempts r + 1\<rparr> # rs)
      else (case lock_first_pending rs workerId now of
              None \<Rightarrow> None
            | Some (job, rs') \<Rightarrow> Some (job, r # rs')))"

definition dequeue :: "JobQueue \<Rightarrow> string \<Rightarrow> int \<Rightarrow> WorkerJob option \<times> JobQueue" where
  "dequeue q workerId now =
     (case lock_first_pending (rows q) workerId now of
        None \<Rightarrow> (None, q)
      | Some (job, rs) \<Rightarrow> (Some job, q\<lparr>rows := rs\<rparr>))"

definition markDone :: "JobQueue \<Rightarrow> string \<Rightarrow> jsval \<Rightarrow> JobQueue" where
  "markDone q jobId result =
     q\<lparr>totalProcessed := totalProcessed q + 1,
       rows := map (\<lambda>r. if row_id r = jobId
                          then r\<lparr>row_status := ''done'',
                                 row_result := (if result = JUndefined then JNull else result)\<rparr>
                          else r) (rows q)\<rparr>"

definition markFailed :: "JobQueue \<Rightarrow> string \<Rightarrow> string option \<Rightarrow> JobQueue" where
  "markFailed q jobId err =
     q\<lparr>totalFailed := totalFailed q + 1,
       rows := map (\<lambda>r. if row_id r = jobId
                          then r\<lparr>row_status := ''failed'',
                                 row_error := Some (case err of
                                                      None \<Rightarrow> ''Unknown error''
                                                    | Some e \<Rightarrow> if e = [] then ''Unknown error'' else e)\<rparr>
                          else r) (rows q)\<rparr>"

definition depth :: "JobQueue \<Rightarrow> int" where
  "depth q = max 0 (totalEnqueued q - totalProcessed q - totalFailed q)"

section \<open>Dead-letter queue (lib/queue/dead-letter-queue)\<close>

record DLQItem =
  dlq_job :: WorkerJob
  dlq_error :: string
  dlq_attempts :: int
  dlq_failedAt :: int

definition dlq_add :: "DLQItem list \<Rightarrow> WorkerJob \<Rightarrow> string \<Rightarrow> int \<Rightarrow> int \<Rightarrow> DLQItem list" where
  "dlq_add items job err attempts now =
     items @ [\<lparr>dlq_job = job, dlq_error = err, dlq_attempts = attempts, dlq_failedAt = now\<rparr>]"

section \<open>Database rows and the engine state\<close>

text \<open>
  The tables the engine core reads and writes, each a list of rows in insertion order,
  and the in-process singletons (queue, idempotency store, backpressure controller,
  dead-letter queue, completion event bus, scheduled retry timers). Every operation takes
  the state and the current time and returns the new state. Identifiers that the database
  generates are drawn from a counter. The logger, the metrics counters and the heartbeat
  monitor are written but never read by the operations below and are left out.
\<close>

record Workflow =
  wf_id :: string
  wf_name :: string
  wf_definitionJson :: WorkflowDefinition
  wf_status :: string

record Execution =
  exec_id :: string
  exec_workflowId :: string
  exec_status :: string
  exec_input :: jsval
  exec_output :: jsval
  exec_userId :: "string option"
  exec_startedAt :: "int option"
  exec_completedAt :: "int option"

record StepExecution =
  step_id :: string
  step_executionId :: string
  step_nodeId :: string
  step_nodeLabel :: string
  step_nodeType :: string
  step_status :: string
  step_attempts :: int
  step_result :: jsval
  step_error :: "string option"
  step_startedAt :: "int option"
  step_completedAt :: "int option"

record ExecutionEvent =
  ev_topic :: string
  ev_status :: string
  ev_output :: jsval
  ev_error :: "string option"

record AuditEntry =
  audit_event :: string
  audit_entityType :: string
  audit_entityId :: string

record System =
  workflows :: "Workflow list"
  executions :: "Execution list"
  steps :: "StepExecution list"
  jobQueue :: JobQueue
  idempotencyStore :: IdempotencyStore
  backpressure :: BackpressureController
  dlq :: "DLQItem list"
  executionEvents :: "ExecutionEvent list"
  auditLog :: "AuditEntry list"
  timers :: "(int \<times> WorkerJob) list"
  nextId :: nat

definition new_System :: System where
  "new_System =
     \<lparr>workflows = [], executions = [], steps = [], jobQueue = new_JobQueue,
      idempotencyStore = Map.empty, backpressure = new_BackpressureController, dlq = [],
      executionEvents = [], auditLog = [], timers = [], nextId = 0\<rparr>"

datatype error =
    WorkflowNotFound string
  | RecordNotFound string

text \<open>The decimal rendering of a number, as a template literal produces it.\<close>

definition digit :: "nat \<Rightarrow> char" where
  "digit d = ''0123456789'' ! (d mod 10)"

fun decimal :: "nat \<Rightarrow> string" where
  "decimal n = (if 10 \<le> n then decimal (n div 10) @ [digit n] else [digit n])"

definition fresh_id :: "string \<Rightarrow> nat \<Rightarrow> string" where
  "fresh_id prefix n = prefix @ decimal n"

definition recordAudit :: "System \<Rightarrow> string \<Rightarrow> string \<Rightarrow> string \<Rightarrow> System" where
  "recordAudit sys event entityType entityId =
     sys\<lparr>auditLog := auditLog sys @
            [\<lparr>audit_event = event, audit_entityType = entityType, audit_entityId = entityId\<rparr>]\<rparr>"

text \<open>
  \<open>prisma.stepExecution.update\<close> and \<open>prisma.execution.update\<close> address one row by
  its primary key and throw when there is none.
\<close>

definition stepExecution_update ::
  "System \<Rightarrow> string \<Rightarrow> (StepExecution \<Rightarrow> StepExecution) \<Rightarrow> error + System" where
  "stepExecution_update sys sid f =
     (if sid \<in> step_id ` set (steps sys)
      then Inr (sys\<lparr>steps := map (\<lambda>s. if step_id s = sid then f s else s) (steps sys)\<rparr>)
      else Inl (RecordNotFound ''StepExecution''))"

definition execution_update ::
  "System \<Rightarrow> string \<Rightarrow> (Execution \<Rightarrow> Execution) \<Rightarrow> error + System" where
  "execution_update sys eid f =
     (if eid \<in> exec_id ` set (executions sys)
      then Inr (sys\<lparr>executions := map (\<lambda>e. if exec_id e = eid then f e else e) (executions sys)\<rparr>)
      else Inl (RecordNotFound ''Execution''))"

definition stepExecution_updateMany ::
  "System \<Rightarrow> (StepExecution \<Rightarrow> bool) \<Rightarrow> (StepExecution \<Rightarrow> StepExecution) \<Rightarrow> System" where
  "stepExecution_updateMany sys p f =
     sys\<lparr>steps := map (\<lambda>s. if p s then f s else s) (steps sys)\<rparr>"

section \<open>Job publisher (lib/queue/job-publisher.ts)\<close>

definition getMaxRetries :: "WorkflowNode \<Rightarrow> int" where
  "getMaxRetries node =
     (case cfg_retry (node_config node) of
        None \<Rightarrow> maxRetries DEFAULT_RETRY_POLICY
      | Some retry \<Rightarrow>
          (case cfg_maxRetries retry of
             None \<Rightarrow> maxRetries DEFAULT_RETRY_POLICY
           | Some n \<Rightarrow> n))"

text \<open>
  The second half of \<open>publishJob\<close>, reached when the idempotency check found no
  duplicate: build the job and enqueue it unless backpressure rejects it.
\<close>

definition admit_job ::
  "System \<Rightarrow> string \<Rightarrow> string \<Rightarrow> WorkflowNode \<Rightarrow> jsval \<Rightarrow> (string \<times> jsval) list \<Rightarrow> int \<Rightarrow> int
     \<Rightarrow> string \<times> System" where
  "admit_job sys sid executionId node input previousResults attempt now =
     (let job = \<lparr>job_id = sid, job_executionId = executionId, job_stepId = sid,
                 job_node = node, job_input = input, job_previousResults = previousResults,
                 job_attempt = attempt, job_maxRetries = getMaxRetries node,
                 job_createdAt = now\<rparr>;
          (ok, bp) = canAccept (backpressure sys) (depth (jobQueue sys))
      in if \<not> ok
         then (sid, sys\<lparr>backpressure := recordRejection bp\<rparr>)
         else (sid, sys\<lparr>backpressure := bp, jobQueue := enqueue (jobQueue sys) job now\<rparr>))"

definition publishJob ::
  "System \<Rightarrow> string \<Rightarrow> WorkflowNode \<Rightarrow> jsval \<Rightarrow> (string \<times> jsval) list \<Rightarrow> int \<Rightarrow> int
     \<Rightarrow> string \<times> System" where
  "publishJob sys executionId node input previousResults attempt now =
     (let ideKey = generateKey executionId (node_id node);
          sid = fresh_id ''step-'' (nextId sys);
          step = \<lparr>step_id = sid, step_executionId = executionId, step_nodeId = node_id node,
                  step_nodeLabel = node_label node, step_nodeType = node_type node,
                  step_status = ''pending'', step_attempts = attempt, step_result = JNull,
                  step_error = None, step_startedAt = Some now, step_completedAt = None\<rparr>;
          sys1 = sys\<lparr>steps := steps sys @ [step], nextId := nextId sys + 1\<rparr>;
          (ideCheck, store') = checkAndSet (idempotencyStore sys1) ideKey sid DEFAULT_TTL_MS now now;
          sys2 = sys1\<lparr>idempotencyStore := store'\<rparr>
      in case existingStepId ideCheck of
           None \<Rightarrow> admit_job sys2 sid executionId node input previousResults attempt now
         | Some existing \<Rightarrow>
             if duplicate ideCheck \<and> existing \<noteq> []
             then (existing, sys2\<lparr>steps := filter (\<lambda>s. step_id s \<noteq> sid) (steps sys2)\<rparr>)
             else admit_job sys2 sid executionId node input previousResults attempt now)"

fun publish_each ::
  "System \<Rightarrow> string \<Rightarrow> WorkflowNode list \<Rightarrow> jsval \<Rightarrow> (string \<times> jsval) list \<Rightarrow> int \<Rightarrow> System" where
  "publish_each sys executionId [] input previousResults now = sys"
| "publish_each sys executionId (node # rest) input previousResults now =
     publish_each (snd (publishJob sys executionId node input previousResults 1 now))
       executionId rest input previousResults now"

section \<open>Orchestrator (lib/orchestrator)\<close>

text \<open>
  \<open>executeWorkflow\<close> up to the point where it starts to wait for the completion event:
  it either throws, returns at once (no initial node), or is left waiting for
  \<open>done:<executionId>\<close> with the initial jobs published.
\<close>

record OrchestratorResult =
  or_executionId :: string
  or_status :: string
  or_output :: jsval
  or_error :: "string option"

datatype orchestration =
    Threw error
  | Returned OrchestratorResult
  | Awaiting string

definition executeWorkflow ::
  "System \<Rightarrow> string \<Rightarrow> jsval \<Rightarrow> string option \<Rightarrow> int \<Rightarrow> orchestration \<times> System" where
  "executeWorkflow sys workflowId input userId now =
     (case find (\<lambda>w. wf_id w = workflowId) (workflows sys) of
        None \<Rightarrow> (Threw (WorkflowNotFound (''Workflow '' @ workflowId @ '' not found'')), sys)
      | Some workflow \<Rightarrow>
          (let definition = wf_definitionJson workflow;
               eid = fresh_id ''exec-'' (nextId sys);
               execution = \<lparr>exec_id = eid, exec_workflowId = workflowId, exec_status = ''running'',
                             exec_input = (if input = JUndefined then JNull else input),
                             exec_output = JNull,
                             exec_userId = (if userId = Some [] then None else userId),
                             exec_startedAt = Some now, exec_completedAt = None\<rparr>;
               sys1 = sys\<lparr>executions := executions sys @ [execution], nextId := nextId sys + 1\<rparr>;
               sys2 = recordAudit sys1 ''execution.started'' ''execution'' eid;
               nodesWithIncoming = set (map edge_target (edges definition));
               initialNodes = filter (\<lambda>n. node_id n \<notin> nodesWithIncoming) (nodes definition)
           in if initialNodes = []
              then (Returned \<lparr>or_executionId = eid, or_status = ''completed'',
                               or_output = JObj [], or_error = None\<rparr>,
                    sys2\<lparr>executions :=
                           map (\<lambda>e. if exec_id e = eid
                                     then e\<lparr>exec_status := ''completed'', exec_output := JObj [],
                                            exec_completedAt := Some now\<rparr>
                                     else e) (executions sys2)\<rparr>)
              else (Awaiting eid, publish_each sys2 eid initialNodes input [] now)))"

section \<open>Result handler (lib/queue/result-handler.ts)\<close>

text \<open>
  Property read \<open>v[key]\<close> on a value that is neither null nor undefined (every caller
  tests that first): own properties only, so an object answers from its entries, an
  array and a string answer \<open>length\<close> and their indices, and anything else is undefined.
\<close>

fun js_get :: "jsval \<Rightarrow> string \<Rightarrow> jsval" where
  "js_get (JObj kvs) key = (case map_of kvs key of Some v \<Rightarrow> v | None \<Rightarrow> JUndefined)"
| "js_get (JArr xs) key =
     (if key = ''length'' then JNum (int (length xs))
      else (case find (\<lambda>i. decimal i = key) [0..<length xs] of
              Some i \<Rightarrow> xs ! i
            | None \<Rightarrow> JUndefined))"
| "js_get (JStr s) key =
     (if key = ''length'' then JNum (int (length s))
      else (case find (\<lambda>i. decimal i = key) [0..<length s] of
              Some i \<Rightarrow> JStr [s ! i]
            | None \<Rightarrow> JUndefined))"
| "js_get v key = JUndefined"

definition filterActiveEdges :: "WorkflowEdge list \<Rightarrow> string \<Rightarrow> jsval \<Rightarrow> WorkflowEdge list" where
  "filterActiveEdges outgoingEdges nodeType result =
     (if nodeType \<noteq> ''condition'' then outgoingEdges
      else
        (let conditionResult =
               (if result = JUndefined \<or> result = JNull then JUndefined else js_get result ''result'');
             labeledEdges = filter (\<lambda>e. edge_conditionBranch e \<noteq> None) outgoingEdges
         in if length labeledEdges > 0
            then (let branch = (if Boolean_js conditionResult then ''true'' else ''false'')
                  in filter (\<lambda>e. edge_conditionBranch e = Some branch \<or> edge_conditionBranch e = None)
                       outgoingEdges)
            else outgoingEdges))"

text \<open>
  \<open>skipBranch\<close> recurses into the downstream nodes of every node it skips. The first
  argument bounds the depth of that recursion; \<open>None\<close> means the bound was reached.
  \<open>handleResult\<close> passes the number of nodes of the definition: a deeper recursion
  visits some node twice on one path, and the source then recurses for ever, since its
  tests do not depend on the rows it has created.
\<close>

fun skipBranch ::
  "nat \<Rightarrow> string list \<Rightarrow> WorkflowDefinition \<Rightarrow> string \<Rightarrow> string set \<Rightarrow> string set \<Rightarrow> int
     \<Rightarrow> System \<Rightarrow> System option" where
  "skipBranch fuel [] definition executionId completedNodeIds pendingOrRunningNodeIds now sys = Some sys"
| "skipBranch fuel (nodeId # rest) definition executionId completedNodeIds pendingOrRunningNodeIds now sys =
     (if nodeId \<in> completedNodeIds \<or> nodeId \<in> pendingOrRunningNodeIds
      then skipBranch fuel rest definition executionId completedNodeIds pendingOrRunningNodeIds now sys
      else
        (case find (\<lambda>n. node_id n = nodeId) (nodes definition) of
           None \<Rightarrow> skipBranch fuel rest definition executionId completedNodeIds pendingOrRunningNodeIds now sys
         | Some node \<Rightarrow>
             if node_type node = ''join''
             then skipBranch fuel rest definition executionId completedNodeIds pendingOrRunningNodeIds now sys
             else
               (let sys1 = sys\<lparr>steps := steps sys @
                                 [\<lparr>step_id = fresh_id ''step-'' (nextId sys),
                                   step_executionId = executionId, step_nodeId = node_id node,
                                   step_nodeLabel = node_label node, step_nodeType = node_type node,
                                   step_status = ''skipped'', step_attempts = 0, step_result = JNull,
                                   step_error = None, step_startedAt = None,
                                   step_completedAt = Some now\<rparr>],
                               nextId := nextId sys + 1\<rparr>;
                    downstream = map edge_target (filter (\<lambda>e. edge_source e = nodeId) (edges definition))
                in if length downstream > 0
                   then (case fuel of
                           0 \<Rightarrow> None
                         | Suc fuel' \<Rightarrow>
                             (case skipBranch fuel' downstream definition executionId completedNodeIds
                                     pendingOrRunningNodeIds now sys1 of
                                None \<Rightarrow> None
                              | Some sys2 \<Rightarrow>
                                  skipBranch fuel rest definition executionId completedNodeIds
                                    pendingOrRunningNodeIds now sys2))
                   else skipBranch fuel rest definition executionId completedNodeIds
                          pendingOrRunningNodeIds now sys1)))"

definition collect_results :: "(string \<times> jsval) list \<Rightarrow> StepExecution list \<Rightarrow> (string \<times> jsval) list" where
  "collect_results previousResults ss =
     foldl (\<lambda>acc step. if step_status step = ''completed'' \<and> Boolean_js (step_result step)
                         then set_key acc (step_nodeId step) (step_result step) else acc)
       previousResults ss"

definition nodeIds_with_status :: "StepExecution list \<Rightarrow> string list \<Rightarrow> string set" where
  "nodeIds_with_status ss statuses =
     set (map step_nodeId (filter (\<lambda>s. step_status s \<in> set statuses) ss))"

definition emit_done :: "System \<Rightarrow> string \<Rightarrow> string \<Rightarrow> jsval \<Rightarrow> string option \<Rightarrow> System" where
  "emit_done sys executionId status output err =
     sys\<lparr>executionEvents := executionEvents sys @
            [\<lparr>ev_topic = ''done:'' @ executionId, ev_status = status, ev_output = output,
              ev_error = err\<rparr>]\<rparr>"

definition error_json :: "string option \<Rightarrow> jsval" where
  "error_json err = JObj (case err of None \<Rightarrow> [] | Some e \<Rightarrow> [(''error'', JStr e)])"

text \<open>
  The part of \<open>handleResult\<close> after the failed branch, in three pieces: the targets
  of the outgoing edges that the completed node does not activate; the nodes that are
  ready given the steps as re-read after the skipping; and the final decision to
  publish the ready nodes, to complete the execution, or to wait.
\<close>

definition skipped_branch_targets ::
  "WorkflowDefinition \<Rightarrow> StepExecution option \<Rightarrow> jsval \<Rightarrow> string list" where
  "skipped_branch_targets definition completedStep result =
     (let outgoingEdges = filter (\<lambda>e. Some (edge_source e) = map_option step_nodeId completedStep)
                            (edges definition);
          activeEdges = filterActiveEdges outgoingEdges
                          (case completedStep of None \<Rightarrow> [] | Some s \<Rightarrow> step_nodeType s) result;
          activeTargetIds = set (map edge_target activeEdges)
      in map edge_target (filter (\<lambda>e. edge_target e \<notin> activeTargetIds) outgoingEdges))"

definition ready_nodes :: "WorkflowDefinition \<Rightarrow> StepExecution list \<Rightarrow> WorkflowNode list" where
  "ready_nodes definition updatedSteps =
     (let updatedCompleted = nodeIds_with_status updatedSteps [''completed''];
          updatedSkipped = nodeIds_with_status updatedSteps [''skipped''];
          updatedPendingOrRunning = nodeIds_with_status updatedSteps [''pending'', ''running'']
      in filter (\<lambda>node.
           if node_id node \<in> updatedCompleted then False
           else if node_id node \<in> updatedSkipped then False
           else if node_id node \<in> updatedPendingOrRunning then False
           else (let incomingEdges = filter (\<lambda>e. edge_target e = node_id node) (edges definition)
                 in if length incomingEdges = 0 then False
                    else if node_type node = ''join''
                    then list_all (\<lambda>e. edge_source e \<in> updatedCompleted \<or>
                                        edge_source e \<in> updatedSkipped) incomingEdges
                    else list_all (\<lambda>e. edge_source e \<in> updatedCompleted \<or>
                                        edge_source e \<in> updatedSkipped) incomingEdges))
         (nodes definition))"

definition publish_or_complete ::
  "System \<Rightarrow> WorkerResult \<Rightarrow> string \<Rightarrow> jsval \<Rightarrow> WorkflowDefinition \<Rightarrow> (string \<times> jsval) list \<Rightarrow> int
     \<Rightarrow> error option \<times> System" where
  "publish_or_complete sys1 result executionId input definition previousResults now =
     (let updatedSteps = filter (\<lambda>s. step_executionId s = executionId) (steps sys1);
          updatedPendingOrRunning = nodeIds_with_status updatedSteps [''pending'', ''running''];
          readyNodes = ready_nodes definition updatedSteps;
          previousResults' = collect_results previousResults updatedSteps
      in if length readyNodes > 0
         then (None, publish_each sys1 (res_executionId result) readyNodes input previousResults' now)
         else if updatedPendingOrRunning = {}
         then (case execution_update sys1 (res_executionId result)
                      (\<lambda>e. e\<lparr>exec_status := ''completed'',
                               exec_output := JObj previousResults',
                               exec_completedAt := Some now\<rparr>) of
                 Inl err \<Rightarrow> (Some err, sys1)
               | Inr sys2 \<Rightarrow>
                   (None,
                    emit_done
                      (recordAudit sys2 ''execution.completed'' ''execution'' (res_executionId result))
                      (res_executionId result) ''completed'' (JObj previousResults') None))
         else (None, sys1))"

definition advance_execution :: "System \<Rightarrow> WorkerResult \<Rightarrow> int \<Rightarrow> (error option \<times> System) option" where
  "advance_execution sys result now =
     (case find (\<lambda>e. exec_id e = res_executionId result) (executions sys) of
        None \<Rightarrow> Some (None, sys)
      | Some execution \<Rightarrow>
          (case find (\<lambda>w. wf_id w = exec_workflowId execution) (workflows sys) of
             None \<Rightarrow> Some (Some (RecordNotFound ''Workflow''), sys)
           | Some workflow \<Rightarrow>
               (let definition = wf_definitionJson workflow;
                    execution_steps = filter (\<lambda>s. step_executionId s = exec_id execution) (steps sys);
                    completedNodeIds = nodeIds_with_status execution_steps [''completed''];
                    pendingOrRunningNodeIds = nodeIds_with_status execution_steps [''pending'', ''running''];
                    previousResults = collect_results [] execution_steps;
                    completedStep = find (\<lambda>s. step_id s = res_stepId result) execution_steps;
                    skippedBranchTargets = skipped_branch_targets definition completedStep (res_result result)
                in case (if length skippedBranchTargets > 0
                         then skipBranch (length (nodes definition)) skippedBranchTargets definition
                                (exec_id execution) completedNodeIds pendingOrRunningNodeIds now sys
                         else Some sys) of
                     None \<Rightarrow> None
                   | Some sys1 \<Rightarrow>
                       Some (publish_or_complete sys1 result (exec_id execution) (exec_input execution)
                               definition previousResults now))))"

text \<open>
  \<open>handleResult\<close> returns the state together with the error it threw, if any; the
  writes made before a throw stay. \<open>None\<close> stands for a call that does not return.
\<close>

definition handleResult :: "System \<Rightarrow> WorkerResult \<Rightarrow> int \<Rightarrow> (error option \<times> System) option" where
  "handleResult sys result now =
     (case stepExecution_update sys (res_stepId result)
             (\<lambda>s. s\<lparr>step_status := res_status result,
                     step_result := (if res_result result \<noteq> JUndefined then res_result result else JNull),
                     step_error := (if res_error result = Some [] then None else res_error result),
                     step_completedAt := Some now\<rparr>) of
        Inl err \<Rightarrow> Some (Some err, sys)
      | Inr sys1 \<Rightarrow>
          if res_status result = ''failed''
          then (case execution_update sys1 (res_executionId result)
                       (\<lambda>e. e\<lparr>exec_status := ''failed'',
                                exec_output := error_json (res_error result),
                                exec_completedAt := Some now\<rparr>) of
                  Inl err \<Rightarrow> Some (Some err, sys1)
                | Inr sys2 \<Rightarrow>
                    (let sys3 = stepExecution_updateMany sys2
                                  (\<lambda>s. step_executionId s = res_executionId result \<and>
                                        step_status s = ''pending'')
                                  (\<lambda>s. s\<lparr>step_status := ''skipped'', step_completedAt := Some now\<rparr>);
                         sys4 = recordAudit sys3 ''execution.failed'' ''execution'' (res_executionId result)
                     in Some (None, emit_done sys4 (res_executionId result) ''failed'' JUndefined
                                      (res_error result))))
          else advance_execution sys1 result now)"

section \<open>Job consumer (lib/queue/job-consumer)\<close>

text \<open>
  A handler either resolves with a result or rejects with a message; the registry maps a
  node type to its handler. \<open>processJob\<close> returns the state and the error it rejected
  with, if any; a retry is a timer holding the delay and the job to enqueue again.
  Attempts are numbered from 1, and the backoff delay is computed over the integers.
\<close>

datatype handler_outcome =
    Resolves WorkerResult
  | Rejects string

type_synonym registry = "string \<rightharpoonup> (WorkerJob \<Rightarrow> handler_outcome)"

definition show_number :: "int \<Rightarrow> string" where
  "show_number i = (if 0 \<le> i then decimal (nat i) else CHR ''-'' # decimal (nat (- i)))"

definition getRetryConfig :: "NodeConfig \<Rightarrow> int \<times> int" where
  "getRetryConfig cfg =
     (let retry = cfg_retry cfg;
          b = (case retry of None \<Rightarrow> None | Some r \<Rightarrow> cfg_backoffMs r);
          m = (case retry of None \<Rightarrow> None | Some r \<Rightarrow> cfg_backoffMultiplier r)
      in ((case b of None \<Rightarrow> backoffMs DEFAULT_RETRY_POLICY
                   | Some v \<Rightarrow> if v = 0 then backoffMs DEFAULT_RETRY_POLICY else v),
          (case m of None \<Rightarrow> backoffMultiplier DEFAULT_RETRY_POLICY
                   | Some v \<Rightarrow> if v = 0 then backoffMultiplier DEFAULT_RETRY_POLICY else v)))"

definition run_handler :: "registry \<Rightarrow> WorkerJob \<Rightarrow> JobQueue \<Rightarrow> WorkerResult \<times> JobQueue" where
  "run_handler reg job q =
     (case reg (node_type (job_node job)) of
        None \<Rightarrow>
          (let err = ''No handler registered for node type: \"'' @ node_type (job_node job) @ ''\"''
           in (\<lparr>res_jobId = job_id job, res_stepId = job_stepId job,
                 res_executionId = job_executionId job, res_status = ''failed'',
                 res_result = JUndefined, res_error = Some err, res_durationMs = 0,
                 res_retryable = Some False\<rparr>,
               markFailed q (job_id job) (Some err)))
      | Some handler \<Rightarrow>
          (case handler job of
             Resolves result \<Rightarrow>
               if res_status result = ''completed''
               then (result, markDone q (job_id job) (res_result result))
               else (result, markFailed q (job_id job) (res_error result))
           | Rejects msg \<Rightarrow>
               (\<lparr>res_jobId = job_id job, res_stepId = job_stepId job,
                 res_executionId = job_executionId job, res_status = ''failed'',
                 res_result = JUndefined, res_error = Some msg, res_durationMs = 0,
                 res_retryable = Some True\<rparr>,
                markFailed q (job_id job) (Some msg))))"

definition processJob :: "registry \<Rightarrow> System \<Rightarrow> WorkerJob \<Rightarrow> int \<Rightarrow> (error option \<times> System) option" where
  "processJob reg sys job now =
     (case stepExecution_update sys (job_stepId job)
             (\<lambda>s. s\<lparr>step_status := ''running'', step_startedAt := Some now,
                     step_attempts := job_attempt job\<rparr>) of
        Inl err \<Rightarrow>
          Some (None, sys\<lparr>jobQueue := markFailed (jobQueue sys) (job_id job)
                                         (Some ''Step no longer exists or was cancelled'')\<rparr>)
      | Inr sys1 \<Rightarrow>
          (let (result, q) = run_handler reg job (jobQueue sys1);
               sys2 = sys1\<lparr>jobQueue := q\<rparr>
           in if res_status result = ''failed'' \<and> res_retryable result \<noteq> Some False \<and>
                 job_attempt job < job_maxRetries job
              then
                (let (backoff, multiplier) = getRetryConfig (node_config (job_node job));
                     delay = backoff * multiplier ^ nat (job_attempt job - 1);
                     sys3 = recordAudit sys2 ''step.retried'' ''step'' (job_stepId job)
                 in case stepExecution_update sys3 (job_stepId job)
                           (\<lambda>s. s\<lparr>step_status := ''pending'',
                                   step_error := Some (''Retry '' @ show_number (job_attempt job) @ ''/'' @
                                                       show_number (job_maxRetries job) @ '': '' @
                                                       (case res_error result of
                                                          None \<Rightarrow> ''undefined'' | Some e \<Rightarrow> e)),
                                   step_attempts := job_attempt job\<rparr>) of
                      Inl err \<Rightarrow> Some (Some err, sys3)
                    | Inr sys4 \<Rightarrow>
                        Some (None,
                          sys4\<lparr>idempotencyStore :=
                                  remove_key (idempotencyStore sys4)
                                    (generateKey (job_executionId job) (node_id (job_node job))),
                                timers := timers sys4 @ [(delay, job)]\<rparr>))
              else
                (let sys3 =
                       (if res_status result = ''failed'' \<and> job_maxRetries job > 0
                        then recordAudit
                               (sys2\<lparr>dlq := dlq_add (dlq sys2) job
                                               (case res_error result of
                                                  None \<Rightarrow> ''Unknown error''
                                                | Some e \<Rightarrow> if e = [] then ''Unknown error'' else e)
                                               (job_attempt job) now\<rparr>)
                               ''dlq.entry'' ''step'' (job_stepId job)
                        else sys2)
                 in case handleResult sys3 result now of
                      None \<Rightarrow> None
                    | Some (err, sys4) \<Rightarrow> Some (None, sys4))))"

text \<open>
  The retry timer firing: the job is enqueued again with the next attempt number. The
  timer list holds the job as it was processed.
\<close>

definition fire_timer :: "System \<Rightarrow> int \<Rightarrow> System" where
  "fire_timer sys now =
     (case timers sys of
        [] \<Rightarrow> sys
      | (delay, job) # rest \<Rightarrow>
          sys\<lparr>timers := rest,
              jobQueue := enqueue (jobQueue sys)
                            (job\<lparr>job_attempt := job_attempt job + 1, job_createdAt := now\<rparr>) now\<rparr>)"

text \<open>One round of a worker: dequeue a job and process it.\<close>

definition work_once :: "registry \<Rightarrow> System \<Rightarrow> string \<Rightarrow> int \<Rightarrow> (error option \<times> System) option" where
  "work_once reg sys workerId now =
     (case dequeue (jobQueue sys) workerId now of
        (None, q) \<Rightarrow> Some (None, sys)
      | (Some job, q) \<Rightarrow> processJob reg (sys\<lparr>jobQueue := q\<rparr>) job now)"

section \<open>Strings and conversions of the JavaScript runtime\<close>

text \<open>
  The string operations the handlers and the cron parser use. Characters are single
  bytes, and white space is the ASCII white space. \<open>split\<close> on a one-character separator
  always returns at least one piece.
\<close>

definition is_space :: "char \<Rightarrow> bool" where
  "is_space c = (c \<in> set [CHR '' '', CHR 0x09, CHR 0x0A, CHR 0x0B, CHR 0x0C, CHR 0x0D])"

definition trim :: "string \<Rightarrow> string" where
  "trim s = rev (dropWhile is_space (rev (dropWhile is_space s)))"

fun split_on :: "char \<Rightarrow> string \<Rightarrow> string list" where
  "split_on sep [] = [[]]"
| "split_on sep (c # cs) =
     (if c = sep then [] # split_on sep cs
      else (case split_on sep cs of
              [] \<Rightarrow> [[c]]
            | piece # pieces \<Rightarrow> (c # piece) # pieces))"

definition startsWith :: "string \<Rightarrow> string \<Rightarrow> bool" where
  "startsWith s p = (take (length p) s = p)"

definition endsWith :: "string \<Rightarrow> string \<Rightarrow> bool" where
  "endsWith s p = (length p \<le> length s \<and> drop (length s - length p) s = p)"

fun indexOf :: "string \<Rightarrow> string \<Rightarrow> nat option" where
  "indexOf [] p = (if p = [] then Some 0 else None)"
| "indexOf (c # cs) p =
     (if startsWith (c # cs) p then Some 0 else map_option Suc (indexOf cs p))"

definition is_digit :: "char \<Rightarrow> bool" where
  "is_digit c = (c \<in> set ''0123456789'')"

definition digits_value :: "string \<Rightarrow> int" where
  "digits_value ds = foldl (\<lambda>acc c. 10 * acc + (int (of_char c) - 48)) 0 ds"

text \<open>
  \<open>parseInt(s, 10)\<close>: leading white space, an optional sign, then the longest run of
  digits; \<open>None\<close> is NaN.
\<close>

definition parseInt :: "string \<Rightarrow> int option" where
  "parseInt s =
     (let t = dropWhile is_space s;
          (sign, body) = (case t of
                            [] \<Rightarrow> (1, [])
                          | c # cs \<Rightarrow> if c = CHR ''-'' then (- 1, cs)
                                      else if c = CHR ''+'' then (1, cs) else (1, t));
          ds = takeWhile is_digit body
      in if ds = [] then None else Some (sign * digits_value ds))"

text \<open>
  \<open>Number(s)\<close> on a string: white space is trimmed, the empty string is 0, and a
  decimal integer with an optional sign is its value. The other numeric literals of
  JavaScript (fractions, exponents, hexadecimal, binary and octal forms, \<open>Infinity\<close>)
  denote numbers outside this model of numbers; every other string is NaN.
\<close>

definition Number_of_string :: "string \<Rightarrow> int option" where
  "Number_of_string s =
     (let t = trim s;
          (sign, body) = (case t of
                            [] \<Rightarrow> (1, [])
                          | c # cs \<Rightarrow> if c = CHR ''-'' then (- 1, cs)
                                      else if c = CHR ''+'' then (1, cs) else (1, t))
      in if t = [] then Some 0
         else if body \<noteq> [] \<and> list_all is_digit body then Some (sign * digits_value body)
         else None)"

definition join_with :: "string \<Rightarrow> string list \<Rightarrow> string" where
  "join_with sep pieces = concat (case pieces of [] \<Rightarrow> [] | p # ps \<Rightarrow> p # map (\<lambda>q. sep @ q) ps)"

fun String_js :: "jsval \<Rightarrow> string" where
  "String_js JUndefined = ''undefined''"
| "String_js JNull = ''null''"
| "String_js (JBool b) = (if b then ''true'' else ''false'')"
| "String_js JNaN = ''NaN''"
| "String_js (JNum n) = show_number n"
| "String_js (JStr s) = s"
| "String_js (JArr xs) =
     join_with '','' (map (\<lambda>x. if x = JUndefined \<or> x = JNull then [] else String_js x) xs)"
| "String_js (JObj kvs) = ''[object Object]''"

text \<open>\<open>Number(v)\<close>: the result is a number (\<open>Some\<close>) or NaN (\<open>None\<close>).\<close>

fun Number_js :: "jsval \<Rightarrow> int option" where
  "Number_js JUndefined = None"
| "Number_js JNull = Some 0"
| "Number_js (JBool b) = Some (if b then 1 else 0)"
| "Number_js JNaN = None"
| "Number_js (JNum n) = Some n"
| "Number_js (JStr s) = Number_of_string s"
| "Number_js (JArr xs) = Number_of_string (String_js (JArr xs))"
| "Number_js (JObj kvs) = None"

section \<open>Condition handler (lib/workers/handlers/condition-handler.ts)\<close>

datatype operator = GE | LE | NE | EQ | GT | LT

fun op_symbol :: "operator \<Rightarrow> string" where
  "op_symbol GE = ''>=''"
| "op_symbol LE = ''<=''"
| "op_symbol NE = ''!=''"
| "op_symbol EQ = ''==''"
| "op_symbol GT = ''>''"
| "op_symbol LT = ''<''"

text \<open>The walk along a path: it stops as soon as the value is null or undefined.\<close>

fun walk :: "jsval \<Rightarrow> string list \<Rightarrow> jsval" where
  "walk v [] = v"
| "walk v (key # keys) = (if v = JUndefined \<or> v = JNull then v else walk (js_get v key) keys)"

definition resolveValue :: "string \<Rightarrow> (string \<times> jsval) list \<Rightarrow> jsval" where
  "resolveValue token previousResults =
     (if \<not> startsWith token ''$''
      then (case Number_of_string token of
              Some num \<Rightarrow> JNum num
            | None \<Rightarrow>
                if (startsWith token ''\"'' \<and> endsWith token ''\"'') \<or>
                   (startsWith token [CHR 0x27] \<and> endsWith token [CHR 0x27])
                then JStr (butlast (tl token))
                else JStr token)
      else (case split_on CHR ''.'' (tl token) of
              [] \<Rightarrow> JUndefined
            | nodeId # path \<Rightarrow>
                walk (case map_of previousResults nodeId of None \<Rightarrow> JUndefined | Some v \<Rightarrow> v) path))"

text \<open>An ordering comparison with NaN on either side is false.\<close>

fun compare :: "jsval \<Rightarrow> operator \<Rightarrow> jsval \<Rightarrow> bool" where
  "compare left EQ right = (String_js left = String_js right)"
| "compare left NE right = (String_js left \<noteq> String_js right)"
| "compare left GT right =
     (case (Number_js left, Number_js right) of (Some a, Some b) \<Rightarrow> a > b | _ \<Rightarrow> False)"
| "compare left LT right =
     (case (Number_js left, Number_js right) of (Some a, Some b) \<Rightarrow> a < b | _ \<Rightarrow> False)"
| "compare left GE right =
     (case (Number_js left, Number_js right) of (Some a, Some b) \<Rightarrow> a \<ge> b | _ \<Rightarrow> False)"
| "compare left LE right =
     (case (Number_js left, Number_js right) of (Some a, Some b) \<Rightarrow> a \<le> b | _ \<Rightarrow> False)"

fun evaluate_ops :: "operator list \<Rightarrow> string \<Rightarrow> (string \<times> jsval) list \<Rightarrow> bool" where
  "evaluate_ops [] trimmed previousResults = Boolean_js (resolveValue trimmed previousResults)"
| "evaluate_ops (op # ops) trimmed previousResults =
     (case indexOf trimmed (op_symbol op) of
        Some idx \<Rightarrow>
          (let left = trim (take idx trimmed);
               right = trim (drop (idx + length (op_symbol op)) trimmed)
           in compare (resolveValue left previousResults) op (resolveValue right previousResults))
      | None \<Rightarrow> evaluate_ops ops trimmed previousResults)"

definition evaluate :: "string \<Rightarrow> (string \<times> jsval) list \<Rightarrow> bool" where
  "evaluate expression previousResults =
     (let trimmed = trim expression
      in if trimmed = ''true'' \<or> trimmed = ''1'' then True
         else if trimmed = ''false'' \<or> trimmed = ''0'' then False
         else evaluate_ops [GE, LE, NE, EQ, GT, LT] trimmed previousResults)"

section \<open>Cron parser (lib/scheduler/cron-parser)\<close>

text \<open>
  Field values are integers, with \<open>None\<close> for NaN. The set of values of a field keeps
  insertion order and is sorted at the end. A counting loop whose bound or start is NaN
  does not run.
\<close>

datatype cron_error =
    InvalidStep string
  | InvalidValue string int int
  | InvalidFieldCount nat

record CronFields =
  minute :: "int list"
  hour :: "int list"
  dayOfMonth :: "int list"
  month :: "int list"
  dayOfWeek :: "int list"

definition add_value :: "int list \<Rightarrow> int \<Rightarrow> int list" where
  "add_value values i = (if i \<in> set values then values else values @ [i])"

text \<open>
  \<open>for (let i = start; i <= end; i += step) values.add(i)\<close>; the source reaches the
  loop with a positive step only.
\<close>

function count_up :: "int \<Rightarrow> int \<Rightarrow> int \<Rightarrow> int list \<Rightarrow> int list" where
  "count_up i stop step values =
     (if 0 < step \<and> i \<le> stop then count_up (i + step) stop step (add_value values i) else values)"
  by pat_completeness auto
termination
  by (relation "measure (\<lambda>(i, stop, step, values). nat (stop - i + 1))") auto

definition count_range :: "int option \<Rightarrow> int option \<Rightarrow> int \<Rightarrow> int list \<Rightarrow> int list" where
  "count_range start stop step values =
     (case (start, stop) of
        (Some s, Some e) \<Rightarrow> count_up s e step values
      | _ \<Rightarrow> values)"

text \<open>
  A destructured piece that the split did not produce is undefined, which \<open>parseInt\<close>
  and \<open>Number\<close> turn into NaN. \<open>split\<close> never returns an empty list.
\<close>

definition nth_piece :: "string list \<Rightarrow> nat \<Rightarrow> string option" where
  "nth_piece pieces i = (if i < length pieces then Some (pieces ! i) else None)"

definition parseInt_piece :: "string option \<Rightarrow> int option" where
  "parseInt_piece p = (case p of None \<Rightarrow> None | Some s \<Rightarrow> parseInt s)"

definition Number_piece :: "string option \<Rightarrow> int option" where
  "Number_piece p = (case p of None \<Rightarrow> None | Some s \<Rightarrow> Number_of_string s)"

definition parse_part :: "string \<Rightarrow> int \<Rightarrow> int \<Rightarrow> int list \<Rightarrow> cron_error + int list" where
  "parse_part part lo hi values =
     (if CHR ''/'' \<in> set part
      then (let pieces = split_on CHR ''/'' part;
                range = (case nth_piece pieces 0 of None \<Rightarrow> [] | Some r \<Rightarrow> r);
                stepStr = nth_piece pieces 1
            in case parseInt_piece stepStr of
                 None \<Rightarrow> Inl (InvalidStep (case stepStr of None \<Rightarrow> ''undefined'' | Some t \<Rightarrow> t))
               | Some step \<Rightarrow>
                   if step \<le> 0
                   then Inl (InvalidStep (case stepStr of None \<Rightarrow> ''undefined'' | Some t \<Rightarrow> t))
                   else
                     (let (start, stop) =
                            (if range \<noteq> ''*''
                             then (if CHR ''-'' \<in> set range
                                   then (let bounds = split_on CHR ''-'' range
                                         in (Number_piece (nth_piece bounds 0), Number_piece (nth_piece bounds 1)))
                                   else (parseInt range, Some hi))
                             else (Some lo, Some hi))
                      in Inr (count_range start stop step values)))
      else if CHR ''-'' \<in> set part
      then (let pieces = split_on CHR ''-'' part;
                start = parseInt_piece (nth_piece pieces 0);
                stop = parseInt_piece (nth_piece pieces 1)
            in Inr (count_range start stop 1 values))
      else if part = ''*''
      then Inr (count_up lo hi 1 values)
      else (case parseInt part of
              Some val \<Rightarrow>
                if val \<ge> lo \<and> val \<le> hi then Inr (add_value values val)
                else Inl (InvalidValue part lo hi)
            | None \<Rightarrow> Inl (InvalidValue part lo hi)))"

fun parse_parts :: "string list \<Rightarrow> int \<Rightarrow> int \<Rightarrow> int list \<Rightarrow> cron_error + int list" where
  "parse_parts [] lo hi values = Inr values"
| "parse_parts (part # parts) lo hi values =
     (case parse_part part lo hi values of
        Inl err \<Rightarrow> Inl err
      | Inr values' \<Rightarrow> parse_parts parts lo hi values')"

definition parseField :: "string \<Rightarrow> int \<Rightarrow> int \<Rightarrow> cron_error + int list" where
  "parseField field lo hi =
     (case parse_parts (split_on CHR '','' field) lo hi [] of
        Inl err \<Rightarrow> Inl err
      | Inr values \<Rightarrow> Inr (sort values))"

text \<open>\<open>s.split(/\s+/)\<close>: the pieces between maximal runs of white space.\<close>

function split_ws :: "string \<Rightarrow> string list" where
  "split_ws [] = [[]]"
| "split_ws (c # cs) =
     (if is_space c then [] # split_ws (dropWhile is_space cs)
      else (case split_ws cs of
              [] \<Rightarrow> [[c]]
            | piece # pieces \<Rightarrow> (c # piece) # pieces))"
  by pat_completeness auto
termination
  by (relation "measure length") (auto simp: length_dropWhile_le less_Suc_eq_le)

definition parseCron :: "string \<Rightarrow> cron_error + CronFields" where
  "parseCron expression =
     (let parts = split_ws (trim expression)
      in if length parts \<noteq> 5 then Inl (InvalidFieldCount (length parts))
         else
           (case parseField (parts ! 0) 0 59 of Inl err \<Rightarrow> Inl err | Inr mi \<Rightarrow>
            case parseField (parts ! 1) 0 23 of Inl err \<Rightarrow> Inl err | Inr ho \<Rightarrow>
            case parseField (parts ! 2) 1 31 of Inl err \<Rightarrow> Inl err | Inr dm \<Rightarrow>
            case parseField (parts ! 3) 1 12 of Inl err \<Rightarrow> Inl err | Inr mo \<Rightarrow>
            case parseField (parts ! 4) 0 6 of Inl err \<Rightarrow> Inl err | Inr dw \<Rightarrow>
              Inr \<lparr>minute = mi, hour = ho, dayOfMonth = dm, month = mo, dayOfWeek = dw\<rparr>))"

text \<open>
  The \<open>Date\<close> object belongs to the runtime: its local-time getters and the two updates
  \<open>getNextRunTime\<close> makes are parameters. \<open>getMonth\<close> counts from 0, as in JavaScript.
\<close>

record 'd calendar =
  getMinutes :: "'d \<Rightarrow> int"
  getHours :: "'d \<Rightarrow> int"
  getDate :: "'d \<Rightarrow> int"
  getMonth :: "'d \<Rightarrow> int"
  getDay :: "'d \<Rightarrow> int"
  clearSeconds :: "'d \<Rightarrow> 'd"
  addMinute :: "'d \<Rightarrow> 'd"

definition matches :: "'d calendar \<Rightarrow> CronFields \<Rightarrow> 'd \<Rightarrow> bool" where
  "matches cal flds d =
     (getMinutes cal d \<in> set (minute flds) \<and>
      getHours cal d \<in> set (hour flds) \<and>
      getDate cal d \<in> set (dayOfMonth flds) \<and>
      getMonth cal d + 1 \<in> set (month flds) \<and>
      getDay cal d \<in> set (dayOfWeek flds))"

definition shouldRun :: "'d calendar \<Rightarrow> string \<Rightarrow> 'd \<Rightarrow> bool" where
  "shouldRun cal expression now =
     (case parseCron expression of
        Inl err \<Rightarrow> False
      | Inr flds \<Rightarrow> matches cal flds now)"

fun search :: "'d calendar \<Rightarrow> CronFields \<Rightarrow> 'd \<Rightarrow> nat \<Rightarrow> 'd option" where
  "search cal flds candidate 0 = None"
| "search cal flds candidate (Suc n) =
     (if matches cal flds candidate then Some candidate
      else search cal flds (addMinute cal candidate) n)"

definition maxIterations :: nat where
  "maxIterations = 366 * 24 * 60"

definition getNextRunTime :: "'d calendar \<Rightarrow> string \<Rightarrow> 'd \<Rightarrow> 'd option" where
  "getNextRunTime cal expression from =
     (case parseCron expression of
        Inl err \<Rightarrow> None
      | Inr flds \<Rightarrow> search cal flds (addMinute cal (clearSeconds cal from)) maxIterations)"

definition validateCronExpression :: "string \<Rightarrow> cron_error option" where
  "validateCronExpression expression =
     (case parseCron expression of Inl err \<Rightarrow> Some err | Inr flds \<Rightarrow> None)"

text \<open>
  One calendar to evaluate with: instants are milliseconds since the epoch and local time
  is UTC. The date of a day number follows the usual civil-calendar computation.
\<close>

definition utc_date :: "int \<Rightarrow> int \<times> int" where
  "utc_date ms =
     (let z = ms div 86400000 + 719468;
          era = z div 146097;
          doe = z - era * 146097;
          yoe = (doe - doe div 1460 + doe div 36524 - doe div 146096) div 365;
          doy = doe - (365 * yoe + yoe div 4 - yoe div 100);
          mp = (5 * doy + 2) div 153
      in ((if mp < 10 then mp + 2 else mp - 10), doy - (153 * mp + 2) div 5 + 1))"

definition utc :: "int calendar" where
  "utc =
     \<lparr>getMinutes = (\<lambda>ms. (ms div 60000) mod 60),
      getHours = (\<lambda>ms. (ms div 3600000) mod 24),
      getDate = (\<lambda>ms. snd (utc_date ms)),
      getMonth = (\<lambda>ms. fst (utc_date ms)),
      getDay = (\<lambda>ms. (ms div 86400000 + 4) mod 7),
      clearSeconds = (\<lambda>ms. ms - ms mod 60000),
      addMinute = (\<lambda>ms. ms + 60000)\<rparr>"

section \<open>DAG validator (lib/validations.ts)\<close>

record ValidationResult =
  valid :: bool
  errors :: "string list"

text \<open>A scan that reports every identifier already seen earlier in the list.\<close>

fun duplicate_errors :: "(string \<Rightarrow> string) \<Rightarrow> string list \<Rightarrow> string set \<Rightarrow> string list" where
  "duplicate_errors msg [] seen = []"
| "duplicate_errors msg (x # xs) seen =
     (if x \<in> seen then [msg x] else []) @ duplicate_errors msg xs (insert x seen)"

definition start_end_errors :: "WorkflowNode list \<Rightarrow> string list" where
  "start_end_errors ns =
     (let startNodes = filter (\<lambda>n. node_type n = ''start'') ns;
          endNodes = filter (\<lambda>n. node_type n = ''end'') ns
      in (if length startNodes = 0 then [''Workflow must have exactly one \"start\" node'']
          else if length startNodes > 1
          then [''Workflow must have exactly one \"start\" node, found '' @ decimal (length startNodes)]
          else []) @
         (if length endNodes = 0 then [''Workflow must have at least one \"end\" node''] else []))"

definition edge_reference_errors :: "string set \<Rightarrow> WorkflowEdge list \<Rightarrow> string list" where
  "edge_reference_errors nodeIds es =
     concat (map (\<lambda>edge.
        (if edge_source edge \<notin> nodeIds
         then [''Edge \"'' @ edge_id edge @ ''\" references non-existent source node: \"'' @
               edge_source edge @ ''\"'']
         else []) @
        (if edge_target edge \<notin> nodeIds
         then [''Edge \"'' @ edge_id edge @ ''\" references non-existent target node: \"'' @
               edge_target edge @ ''\"'']
         else [])) es)"

definition duplicate_node_message :: "string \<Rightarrow> string" where
  "duplicate_node_message i = ''Duplicate node ID: \"'' @ i @ ''\"''"

definition duplicate_edge_message :: "string \<Rightarrow> string" where
  "duplicate_edge_message i = ''Duplicate edge ID: \"'' @ i @ ''\"''"

definition structural_errors :: "WorkflowDefinition \<Rightarrow> string list" where
  "structural_errors d =
     duplicate_errors duplicate_node_message (map node_id (nodes d)) {} @
     duplicate_errors duplicate_edge_message (map edge_id (edges d)) {} @
     start_end_errors (nodes d) @
     edge_reference_errors (set (map node_id (nodes d))) (edges d)"

text \<open>
  Kahn's algorithm. The adjacency list of a node is the list of targets of its outgoing
  edges, in edge order; the in-degree map starts at 0 for every node and counts the
  edges into it. These run only after the structural checks have passed, so node ids are
  distinct, every edge end is a node, the map has an entry for every neighbour, and its
  keys in insertion order are the node ids in node order. (The dash in the cycle message
  is written in ASCII here.)
\<close>

definition adjacency :: "WorkflowEdge list \<Rightarrow> string \<Rightarrow> string list" where
  "adjacency es u = map edge_target (filter (\<lambda>e. edge_source e = u) es)"

definition initial_inDegree :: "WorkflowNode list \<Rightarrow> WorkflowEdge list \<Rightarrow> (string \<rightharpoonup> int)" where
  "initial_inDegree ns es =
     foldl (\<lambda>m edge. m(edge_target edge \<mapsto> (case m (edge_target edge) of None \<Rightarrow> 0 | Some d \<Rightarrow> d) + 1))
       (foldl (\<lambda>m node. m(node_id node \<mapsto> 0)) Map.empty ns) es"

definition relax :: "(string \<rightharpoonup> int) \<times> string list \<Rightarrow> string \<Rightarrow> (string \<rightharpoonup> int) \<times> string list" where
  "relax st neighbor =
     (case fst st neighbor of
        None \<Rightarrow> st
      | Some d \<Rightarrow>
          (let newDegree = d - 1
           in ((fst st)(neighbor \<mapsto> newDegree),
               if newDegree = 0 then snd st @ [neighbor] else snd st)))"

definition positive :: "WorkflowEdge list \<Rightarrow> (string \<rightharpoonup> int) \<Rightarrow> string set" where
  "positive es inDegree = {v \<in> edge_target ` set es. \<exists>d. inDegree v = Some d \<and> 0 < d}"

text \<open>
  The peeling loop: take the head of the queue, count it, lower the in-degree of each of
  its neighbours and push those that reach 0. Its measure is the queue length plus the
  number of nodes that still have a positive in-degree.
\<close>

function kahn :: "WorkflowEdge list \<Rightarrow> (string \<rightharpoonup> int) \<Rightarrow> string list \<Rightarrow> nat \<Rightarrow> nat" where
  "kahn es inDegree [] processedCount = processedCount"
| "kahn es inDegree (current # queue) processedCount =
     (let st = foldl relax (inDegree, queue) (adjacency es current)
      in kahn es (fst st) (snd st) (processedCount + 1))"
  by pat_completeness auto

text \<open>
  The same loop with the processed nodes listed in order instead of counted; the source
  keeps the count only, and the list is what the proofs below speak about.
\<close>

function kahn_trace :: "WorkflowEdge list \<Rightarrow> (string \<rightharpoonup> int) \<Rightarrow> string list \<Rightarrow> string list" where
  "kahn_trace es inDegree [] = []"
| "kahn_trace es inDegree (current # queue) =
     (let st = foldl relax (inDegree, queue) (adjacency es current)
      in current # kahn_trace es (fst st) (snd st))"
  by pat_completeness auto

text \<open>Breadth-first search from the start node over the adjacency lists.\<close>

definition visit :: "string set \<times> string list \<Rightarrow> string \<Rightarrow> string set \<times> string list" where
  "visit st neighbor =
     (if neighbor \<notin> fst st then (insert neighbor (fst st), snd st @ [neighbor]) else st)"

function bfs :: "WorkflowEdge list \<Rightarrow> string set \<Rightarrow> string list \<Rightarrow> string set" where
  "bfs es reachable [] = reachable"
| "bfs es reachable (current # bfsQueue) =
     (let st = foldl visit (reachable, bfsQueue) (adjacency es current)
      in bfs es (fst st) (snd st))"
  by pat_completeness auto

definition cycle_errors :: "WorkflowDefinition \<Rightarrow> string list" where
  "cycle_errors d =
     (let inDegree = initial_inDegree (nodes d) (edges d);
          queue = filter (\<lambda>nodeId. inDegree nodeId = Some 0) (map node_id (nodes d));
          processedCount = kahn (edges d) inDegree queue 0
      in if processedCount \<noteq> length (nodes d)
         then [''Workflow contains a cycle - workflows must be directed acyclic graphs (DAGs)'']
         else [])"

definition reachability_errors :: "WorkflowDefinition \<Rightarrow> string list" where
  "reachability_errors d =
     (case filter (\<lambda>n. node_type n = ''start'') (nodes d) of
        [startNode] \<Rightarrow>
          (let reachable = bfs (edges d) {node_id startNode} [node_id startNode]
           in concat (map (\<lambda>node.
                if node_id node \<notin> reachable
                then [''Node \"'' @ node_id node @ ''\" ('' @ node_label node @
                      '') is not reachable from the start node'']
                else []) (nodes d)))
      | _ \<Rightarrow> [])"

definition fork_join_errors :: "WorkflowDefinition \<Rightarrow> string list" where
  "fork_join_errors d =
     concat (map (\<lambda>node.
        (if node_type node = ''fork''
         then (let outgoing = filter (\<lambda>e. edge_source e = node_id node) (edges d)
               in if length outgoing < 2
                  then [''Fork node \"'' @ node_id node @ ''\" ('' @ node_label node @
                        '') must have at least 2 outgoing edges, found '' @ decimal (length outgoing)]
                  else [])
         else []) @
        (if node_type node = ''join''
         then (let incoming = filter (\<lambda>e. edge_target e = node_id node) (edges d)
               in if length incoming < 2
                  then [''Join node \"'' @ node_id node @ ''\" ('' @ node_label node @
                        '') must have at least 2 incoming edges, found '' @ decimal (length incoming)]
                  else [])
         else [])) (nodes d))"

definition validateDAG :: "WorkflowDefinition \<Rightarrow> ValidationResult" where
  "validateDAG d =
     (if length (nodes d) = 0
      then \<lparr>valid = False, errors = [''Workflow must have at least one node'']\<rparr>
      else
        (let errors1 = structural_errors d
         in if length errors1 > 0 then \<lparr>valid = False, errors = errors1\<rparr>
            else
              (let errors2 = errors1 @ cycle_errors d;
                   errors3 = errors2 @
                     (if length (filter (\<lambda>n. node_type n = ''start'') (nodes d)) = 1 \<and>
                         length errors2 = 0
                      then reachability_errors d else []);
                   errors4 = errors3 @ fork_join_errors d
               in \<lparr>valid = (length errors4 = 0), errors = errors4\<rparr>)))"

text \<open>What the validator is to guarantee, stated on the graph of the definition.\<close>

definition edge_rel :: "WorkflowEdge list \<Rightarrow> (string \<times> string) set" where
  "edge_rel es = (\<lambda>e. (edge_source e, edge_target e)) ` set es"

definition topological_ordering :: "WorkflowDefinition \<Rightarrow> string list \<Rightarrow> bool" where
  "topological_ordering d order =
     (distinct order \<and> length order = length (nodes d) \<and>
      set order = node_id ` set (nodes d) \<and>
      (\<forall>e \<in> set (edges d).
         \<exists>i j. i < j \<and> j < length order \<and>
               order ! i = edge_source e \<and> order ! j = edge_target e))"

text \<open>
  Two notions for the proofs about the peeling loop: the number of edges into a node from
  nodes not yet peeled, and a list in which the sources of the edges into each element
  stand before it.
\<close>

definition into :: "WorkflowEdge list \<Rightarrow> string list \<Rightarrow> string \<Rightarrow> int" where
  "into es peeled v = int (length (filter (\<lambda>e. edge_target e = v \<and> edge_source e \<notin> set peeled) es))"

definition sources_first :: "WorkflowEdge list \<Rightarrow> string list \<Rightarrow> bool" where
  "sources_first es order =
     (\<forall>i < length order. \<forall>e \<in> set es. edge_target e = order ! i \<longrightarrow> edge_source e \<in> set (take i order))"

section \<open>Example states\<close>

text \<open>Concrete workflows, jobs and states on which the operations are evaluated.\<close>

definition plain_node :: "string \<Rightarrow> string \<Rightarrow> WorkflowNode" where
  "plain_node nid ty = \<lparr>node_id = nid, node_type = ty, node_label = nid,
                         node_config = \<lparr>cfg_retry = None\<rparr>\<rparr>"

definition plain_edge :: "string \<Rightarrow> string \<Rightarrow> string \<Rightarrow> WorkflowEdge" where
  "plain_edge eid src tgt = \<lparr>edge_id = eid, edge_source = src, edge_target = tgt,
                              edge_conditionBranch = None\<rparr>"

definition plain_job :: WorkerJob where
  "plain_job = \<lparr>job_id = ''s1'', job_executionId = ''e1'', job_stepId = ''s1'',
       job_node = plain_node ''A'' ''action'',
       job_input = JNull, job_previousResults = [], job_attempt = 1, job_maxRetries = 0,
       job_createdAt = 0\<rparr>"

definition retry_once_node :: WorkflowNode where
  "retry_once_node =
     \<lparr>node_id = ''A'', node_type = ''action'', node_label = ''A'',
      node_config = \<lparr>cfg_retry = Some \<lparr>cfg_maxRetries = Some 1, cfg_backoffMs = None,
                                        cfg_backoffMultiplier = None\<rparr>\<rparr>\<rparr>"

definition one_node_workflow :: "string \<Rightarrow> Workflow" where
  "one_node_workflow status =
     \<lparr>wf_id = ''wf'', wf_name = ''w'',
      wf_definitionJson = \<lparr>nodes = [retry_once_node], edges = []\<rparr>, wf_status = status\<rparr>"

definition always_fails :: "WorkerJob \<Rightarrow> handler_outcome" where
  "always_fails job =
     Resolves \<lparr>res_jobId = job_id job, res_stepId = job_stepId job,
               res_executionId = job_executionId job, res_status = ''failed'',
               res_result = JUndefined, res_error = Some ''boom'', res_durationMs = 1,
               res_retryable = None\<rparr>"

text \<open>
  An active workflow whose only node has \<open>retry.maxRetries = 1\<close> is executed, and one
  worker round runs its job with a handler that always fails.
\<close>

definition retry_once_run :: "(error option \<times> System) option" where
  "retry_once_run =
     work_once [''action'' \<mapsto> always_fails]
       (snd (executeWorkflow (new_System\<lparr>workflows := [one_node_workflow ''active'']\<rparr>)
               ''wf'' JUndefined None 0))
       ''worker-1'' 5"

definition linear_workflow :: Workflow where
  "linear_workflow =
     \<lparr>wf_id = ''wf'', wf_name = ''linear'',
      wf_definitionJson =
        \<lparr>nodes = [plain_node ''start'' ''start'', plain_node ''A'' ''action'',
                  plain_node ''end'' ''end''],
         edges = [plain_edge ''e1'' ''start'' ''A'', plain_edge ''e2'' ''A'' ''end'']\<rparr>,
      wf_status = ''active''\<rparr>"

definition example_step :: "string \<Rightarrow> string \<Rightarrow> string \<Rightarrow> string \<Rightarrow> StepExecution" where
  "example_step sid nid ty status =
     \<lparr>step_id = sid, step_executionId = ''e1'', step_nodeId = nid, step_nodeLabel = nid,
      step_nodeType = ty, step_status = status, step_attempts = 1,
      step_result = (if status = ''completed'' then JObj [(''message'', JStr ''ok'')] else JNull),
      step_error = None, step_startedAt = Some 1, step_completedAt = Some 2\<rparr>"

text \<open>
  An execution of the linear workflow that was cancelled while the step of \<open>A\<close> was
  running: the cancel route has set the execution to cancelled and that step to skipped.
\<close>

definition cancelled_system :: System where
  "cancelled_system =
     new_System
       \<lparr>workflows := [linear_workflow],
        executions := [\<lparr>exec_id = ''e1'', exec_workflowId = ''wf'', exec_status = ''cancelled'',
                        exec_input = JNull, exec_output = JNull, exec_userId = None,
                        exec_startedAt = Some 0, exec_completedAt = Some 2\<rparr>],
        steps := [example_step ''s1'' ''start'' ''start'' ''completed'',
                  example_step ''s2'' ''A'' ''action'' ''skipped''],
        nextId := 10\<rparr>"

definition late_result :: "string \<Rightarrow> WorkerResult" where
  "late_result status =
     \<lparr>res_jobId = ''s2'', res_stepId = ''s2'', res_executionId = ''e1'', res_status = status,
      res_result = (if status = ''completed'' then JObj [(''message'', JStr ''late'')] else JUndefined),
      res_error = (if status = ''completed'' then None else Some ''boom''),
      res_durationMs = 3, res_retryable = None\<rparr>"

section \<open>Backpressure: admission and hysteresis\<close>

lemma canAccept_config [simp]: "config (snd (canAccept c d)) = config c"
  by (simp add: canAccept_def)

lemma canAccept_seq_config [simp]: "config (canAccept_seq c ds) = config c"
  by (induction ds arbitrary: c) simp_all

lemma canAccept_seq_append: "canAccept_seq c (xs @ ys) = canAccept_seq (canAccept_seq c xs) ys"
  by (induction xs arbitrary: c) simp_all

lemma canAccept_keeps_pressure:
  assumes "state c \<noteq> accepting" and "lowWaterMark (config c) < d"
  shows "state (snd (canAccept c d)) \<noteq> accepting"
  using assms by (simp add: canAccept_def)

lemma canAccept_seq_keeps_pressure:
  assumes "state c \<noteq> accepting" and "\<forall>d \<in> set ds. lowWaterMark (config c) < d"
  shows "state (canAccept_seq c ds) \<noteq> accepting"
  using assms
proof (induction ds arbitrary: c)
  case Nil
  then show ?case by simp
next
  case (Cons d ds)
  have "state (snd (canAccept c d)) \<noteq> accepting"
    using Cons.prems by (intro canAccept_keeps_pressure) simp_all
  moreover have "\<forall>x \<in> set ds. lowWaterMark (config (snd (canAccept c d))) < x"
    using Cons.prems by simp
  ultimately show ?case
    using Cons.IH by simp
qed

text \<open>
  C6. With the default thresholds, at any point of any sequence of calls (the controller
  reached from a default-configured one by the calls \<open>pre\<close>): the next call answers
  false exactly when the depth it observes is at least 1000; and if the state is pressured
  at that point, then after any further calls that all observe a depth above 200 the state
  is still not accepting. The state becomes pressured only in a call observing a depth of
  at least 800.
\<close>

theorem canAccept_hysteresis:
  assumes "config c0 = DEFAULT_CONFIG"
  shows "(fst (canAccept (canAccept_seq c0 pre) d) = False \<longleftrightarrow> d \<ge> 1000) \<and>
         (state (canAccept_seq c0 pre) = pressured \<and> (\<forall>x \<in> set ds. 200 < x)
            \<longrightarrow> state (canAccept_seq c0 (pre @ ds)) \<noteq> accepting) \<and>
         (state (canAccept_seq c0 pre) \<noteq> pressured \<and>
          state (snd (canAccept (canAccept_seq c0 pre) d)) = pressured \<longrightarrow> 800 \<le> d)"
proof -
  let ?c = "canAccept_seq c0 pre"
  have cfg: "config ?c = DEFAULT_CONFIG"
    using assms by simp
  have a: "fst (canAccept ?c d) = False \<longleftrightarrow> d \<ge> 1000"
    using cfg by (simp add: canAccept_def DEFAULT_CONFIG_def)
  have b: "state (canAccept_seq ?c ds) \<noteq> accepting"
    if "state ?c = pressured" and "\<forall>x \<in> set ds. 200 < x"
    using that cfg canAccept_seq_keeps_pressure [of ?c ds] by (simp add: DEFAULT_CONFIG_def)
  have c: "800 \<le> d"
    if "state ?c \<noteq> pressured" and "state (snd (canAccept ?c d)) = pressured"
    using that cfg by (simp add: canAccept_def DEFAULT_CONFIG_def split: if_splits)
  show ?thesis
    using a b c by (simp add: canAccept_seq_append)
qed

theorem canAccept_hysteresis_witness:
  "config new_BackpressureController = DEFAULT_CONFIG \<and>
   fst (canAccept (canAccept_seq new_BackpressureController [100, 900]) 1000) = False \<and>
   state (canAccept_seq new_BackpressureController [100, 900]) = pressured \<and>
   (200 :: int) < Min (set [500, 201, 999]) \<and>
   state (canAccept_seq new_BackpressureController ([100, 900] @ [500, 201, 999])) \<noteq> accepting \<and>
   state (canAccept_seq new_BackpressureController [100]) \<noteq> pressured \<and>
   state (snd (canAccept (canAccept_seq new_BackpressureController [100]) 900)) = pressured"
proof -
  have h: "config new_BackpressureController = DEFAULT_CONFIG"
    by (simp add: new_BackpressureController_def)
  have p: "state (canAccept_seq new_BackpressureController [100, 900]) = pressured"
    by (simp add: new_BackpressureController_def canAccept_def DEFAULT_CONFIG_def)
  have q: "state (canAccept_seq new_BackpressureController [100]) \<noteq> pressured"
    by (simp add: new_BackpressureController_def canAccept_def DEFAULT_CONFIG_def)
  have r: "state (snd (canAccept (canAccept_seq new_BackpressureController [100]) 900)) = pressured"
    by (simp add: new_BackpressureController_def canAccept_def DEFAULT_CONFIG_def)
  show ?thesis
    using h p q r
      canAccept_hysteresis [OF h, of "[100, 900]" 1000 "[500, 201, 999]"]
    by simp
qed

section \<open>Idempotency: duplicates, removal and expiry\<close>

text \<open>
  C7. When the first call registers \<open>s1\<close> under \<open>k\<close> (the key has no live entry when
  it is made) and the second call is made before the entry written by the first expires,
  the second call reports a duplicate of \<open>s1\<close>; after \<open>remove\<close>, a further call reports
  no duplicate.
\<close>

theorem checkAndSet_duplicate_then_remove:
  assumes first: "\<not> duplicate (fst (checkAndSet store k s1 ttl t1 t1'))"
    and live: "t2 < t1' + ttl"
  shows "fst (checkAndSet (snd (checkAndSet store k s1 ttl t1 t1')) k s2 ttl2 t2 t2')
           = \<lparr>duplicate = True, existingStepId = Some s1\<rparr> \<and>
         fst (checkAndSet
                (remove_key (snd (checkAndSet (snd (checkAndSet store k s1 ttl t1 t1')) k s2 ttl2 t2 t2')) k)
                k s2 ttl3 t3 t3')
           = \<lparr>duplicate = False, existingStepId = None\<rparr>"
  using assms
  by (auto simp: checkAndSet_def remove_key_def split: option.splits if_splits)

theorem checkAndSet_duplicate_then_remove_witness:
  "\<not> duplicate (fst (checkAndSet Map.empty ''e1:n1'' ''s1'' DEFAULT_TTL_MS 1000 1000)) \<and>
   (1500 :: int) < 1000 + DEFAULT_TTL_MS \<and>
   fst (checkAndSet (snd (checkAndSet Map.empty ''e1:n1'' ''s1'' DEFAULT_TTL_MS 1000 1000))
          ''e1:n1'' ''s2'' DEFAULT_TTL_MS 1500 1500)
     = \<lparr>duplicate = True, existingStepId = Some ''s1''\<rparr>"
proof -
  have a: "\<not> duplicate (fst (checkAndSet Map.empty ''e1:n1'' ''s1'' DEFAULT_TTL_MS 1000 1000))"
    by (simp add: checkAndSet_def)
  have b: "(1500 :: int) < 1000 + DEFAULT_TTL_MS"
    by (simp add: DEFAULT_TTL_MS_def)
  show ?thesis
    using a b checkAndSet_duplicate_then_remove [OF a b, of "''s2''" DEFAULT_TTL_MS 1500 2000 0 0]
    by simp
qed

text \<open>
  C10. A key whose stored entry has expired is treated as absent by \<open>checkAndSet\<close>
  itself, without any sweep: the call reports no duplicate and overwrites the entry with
  the new step id and a fresh expiry.
\<close>

theorem checkAndSet_expired_reusable:
  assumes "store k = Some e" and "expiresAt e \<le> now"
  shows "checkAndSet store k s ttl now now'
           = (\<lparr>duplicate = False, existingStepId = None\<rparr>,
              store(k \<mapsto> \<lparr>stepId = s, expiresAt = now' + ttl\<rparr>))"
  using assms by (simp add: checkAndSet_def)

theorem checkAndSet_expired_reusable_witness:
  "[''k'' \<mapsto> \<lparr>stepId = ''old'', expiresAt = 10\<rparr>] ''k'' = Some \<lparr>stepId = ''old'', expiresAt = 10\<rparr> \<and>
   expiresAt \<lparr>stepId = ''old'', expiresAt = 10\<rparr> \<le> 10 \<and>
   fst (checkAndSet [''k'' \<mapsto> \<lparr>stepId = ''old'', expiresAt = 10\<rparr>] ''k'' ''new'' 5 10 10)
     = \<lparr>duplicate = False, existingStepId = None\<rparr> \<and>
   snd (checkAndSet [''k'' \<mapsto> \<lparr>stepId = ''old'', expiresAt = 10\<rparr>] ''k'' ''new'' 5 10 10) ''k''
     = Some \<lparr>stepId = ''new'', expiresAt = 15\<rparr>"
proof -
  have a: "[''k'' \<mapsto> \<lparr>stepId = ''old'', expiresAt = 10\<rparr>] ''k'' = Some \<lparr>stepId = ''old'', expiresAt = 10\<rparr>"
    by simp
  have b: "expiresAt \<lparr>stepId = ''old'', expiresAt = 10\<rparr> \<le> 10"
    by simp
  show ?thesis
    using a b
      checkAndSet_expired_reusable
        [of "[''k'' \<mapsto> \<lparr>stepId = ''old'', expiresAt = 10\<rparr>]" "''k''"
            "\<lparr>stepId = ''old'', expiresAt = 10\<rparr>" 10 "''new''" 5 10]
    by simp
qed

section \<open>Queue: the inserted row\<close>

text \<open>
  C4 (as amended). When \<open>enqueue\<close> inserts a row (no row has the job's id yet), the row
  is appended with status pending, attempts 0 and the job as payload; its \<open>maxAttempts\<close>
  is \<open>maxRetries + 1\<close> when \<open>maxRetries\<close> is not zero and 3 when it is zero.
\<close>

theorem enqueue_inserted_row:
  assumes "job_id job \<notin> row_id ` set (rows q)"
  shows "\<exists>r. rows (enqueue q job now) = rows q @ [r] \<and>
             row_id r = job_id job \<and> row_status r = ''pending'' \<and> row_attempts r = 0 \<and>
             row_payload r = job \<and>
             row_maxAttempts r = (if job_maxRetries job = 0 then 3 else job_maxRetries job + 1)"
  using assms by (simp add: enqueue_def new_row_def)

theorem enqueue_inserted_row_witness:
  "job_id plain_job \<notin> row_id ` set (rows new_JobQueue) \<and>
   (\<exists>r. rows (enqueue new_JobQueue plain_job 7) = rows new_JobQueue @ [r] \<and>
        row_id r = ''s1'' \<and> row_status r = ''pending'' \<and> row_attempts r = 0 \<and>
        row_payload r = plain_job \<and> row_maxAttempts r = 3)"
proof -
  have h: "job_id plain_job \<notin> row_id ` set (rows new_JobQueue)"
    by (simp add: new_JobQueue_def)
  show ?thesis
    using h enqueue_inserted_row [OF h, of 7] by (simp add: plain_job_def)
qed

text \<open>The claim as stated fails for a job with \<open>maxRetries = 0\<close>: the row gets 3, not 1.\<close>

theorem enqueue_maxAttempts_counterexample:
  "job_maxRetries plain_job = 0 \<and>
   map row_maxAttempts (rows (enqueue new_JobQueue plain_job 7)) = [3] \<and>
   map row_maxAttempts (rows (enqueue new_JobQueue plain_job 7)) \<noteq> [job_maxRetries plain_job + 1]"
  by (simp add: enqueue_def new_row_def new_JobQueue_def plain_job_def)

section \<open>Orchestrator: missing and non-active workflows\<close>

lemma publishJob_executions [simp]:
  "executions (snd (publishJob sys eid node input prev attempt now)) = executions sys"
  by (simp add: publishJob_def admit_job_def Let_def split: prod.splits option.splits)

lemma publish_each_executions [simp]:
  "executions (publish_each sys eid ns input prev now) = executions sys"
  by (induction ns arbitrary: sys) simp_all




section \<open>Consumer: retries with \<open>maxRetries = 1\<close>\<close>

text \<open>
  C1, at the input where the code departs from the claim. A node with
  \<open>retry.maxRetries = 1\<close> whose handler always fails gets one attempt, not two: after
  the first worker round the step is failed with attempt counter 1, the execution is
  failed, the job is in the dead-letter queue, and nothing is left to run (no retry timer,
  no pending queue row).
\<close>

theorem processJob_maxRetries_one_single_attempt:
  "getMaxRetries retry_once_node = 1 \<and>
   (case retry_once_run of
      None \<Rightarrow> False
    | Some (err, sys) \<Rightarrow>
        map step_attempts (steps sys) = [1] \<and>
        map step_status (steps sys) = [''failed''] \<and>
        map exec_status (executions sys) = [''failed''] \<and>
        length (dlq sys) = 1 \<and>
        timers sys = [] \<and>
        map row_status (rows (jobQueue sys)) = [''failed''])"
  by code_simp

section \<open>Result handler: results for an execution that is not running\<close>

text \<open>
  C2 (as amended). \<open>handleResult\<close> has no test of the parent execution's status. For a
  failed result whose step and execution rows exist it records the step as failed and
  sets the execution to failed with output \<open>{error}\<close>, whatever the execution's status
  was, and publishes no job.
\<close>

theorem handleResult_failed_any_status:
  assumes "res_stepId r \<in> step_id ` set (steps sys)"
    and "res_executionId r \<in> exec_id ` set (executions sys)"
    and "res_status r = ''failed''"
  shows "\<exists>sys'. handleResult sys r now = Some (None, sys') \<and>
           jobQueue sys' = jobQueue sys \<and>
           (\<forall>s \<in> set (steps sys'). step_id s = res_stepId r \<longrightarrow> step_status s = ''failed'') \<and>
           (\<forall>e \<in> set (executions sys'). exec_id e = res_executionId r \<longrightarrow>
               exec_status e = ''failed'' \<and> exec_output e = error_json (res_error r))"
  using assms
  by (auto simp: handleResult_def stepExecution_update_def execution_update_def Let_def
      stepExecution_updateMany_def recordAudit_def emit_done_def)

theorem handleResult_failed_any_status_witness:
  "res_stepId (late_result ''failed'') \<in> step_id ` set (steps cancelled_system) \<and>
   res_executionId (late_result ''failed'') \<in> exec_id ` set (executions cancelled_system) \<and>
   res_status (late_result ''failed'') = ''failed'' \<and>
   (\<exists>sys'. handleResult cancelled_system (late_result ''failed'') 9 = Some (None, sys') \<and>
           jobQueue sys' = jobQueue cancelled_system)"
proof -
  have a: "res_stepId (late_result ''failed'') \<in> step_id ` set (steps cancelled_system)"
    by (simp add: late_result_def cancelled_system_def example_step_def)
  have b: "res_executionId (late_result ''failed'') \<in> exec_id ` set (executions cancelled_system)"
    by (simp add: late_result_def cancelled_system_def)
  have c: "res_status (late_result ''failed'') = ''failed''"
    by (simp add: late_result_def)
  show ?thesis
    using a b c handleResult_failed_any_status [OF a b c, of 9] by blast
qed

text \<open>
  The claim as stated fails on a cancelled execution: a late completed result publishes a
  job for the next node, and a late failed result overwrites the execution's status and
  output.
\<close>

theorem handleResult_cancelled_counterexample:
  "map exec_status (executions cancelled_system) = [''cancelled''] \<and>
   (case handleResult cancelled_system (late_result ''completed'') 9 of
      None \<Rightarrow> False
    | Some (err, sys) \<Rightarrow>
        map row_nodeId (rows (jobQueue sys)) = [''end''] \<and>
        map step_nodeId (steps sys) = [''start'', ''A'', ''end'']) \<and>
   (case handleResult cancelled_system (late_result ''failed'') 9 of
      None \<Rightarrow> False
    | Some (err, sys) \<Rightarrow>
        map exec_status (executions sys) = [''failed''] \<and>
        map exec_output (executions sys) = [JObj [(''error'', JStr ''boom'')]])"
  by code_simp

section \<open>Condition handler: comparison and unknown references\<close>

lemma walk_undefined [simp]: "walk JUndefined keys = JUndefined"
  by (cases keys) simp_all

lemma walk_null [simp]: "walk JNull keys = JNull"
  by (cases keys) simp_all




section \<open>Cron: the next run time is a run time\<close>

lemma search_matches: "search cal flds c n = Some d \<Longrightarrow> matches cal flds d"
  by (induction n arbitrary: c) (auto split: if_splits)

lemma search_first: "matches cal flds c \<Longrightarrow> 0 < n \<Longrightarrow> search cal flds c n = Some c"
  by (cases n) simp_all

text \<open>
  C8. Whatever the calendar, the expression and the starting instant: a date returned by
  \<open>getNextRunTime\<close> satisfies \<open>shouldRun\<close> for the same expression. (An expression
  that does not parse makes \<open>getNextRunTime\<close> return null, so the expression is valid.)
\<close>

theorem getNextRunTime_shouldRun:
  assumes "getNextRunTime cal e t = Some d"
  shows "shouldRun cal e d \<and> validateCronExpression e = None"
  using assms
  by (auto simp: getNextRunTime_def shouldRun_def validateCronExpression_def
      split: sum.splits dest: search_matches)

lemma parseCron_new_year:
  "parseCron ''1 0 1 1 4'' =
     Inr \<lparr>minute = [1], hour = [0], dayOfMonth = [1], month = [1], dayOfWeek = [4]\<rparr>"
  by code_simp

lemma matches_new_year:
  "matches utc \<lparr>minute = [1], hour = [0], dayOfMonth = [1], month = [1], dayOfWeek = [4]\<rparr> 60000"
  by code_simp

lemma getNextRunTime_new_year:
  "getNextRunTime utc ''1 0 1 1 4'' 30500 = Some 60000"
proof -
  have c: "addMinute utc (clearSeconds utc 30500) = 60000"
    by (simp add: utc_def)
  have "0 < maxIterations"
    by (simp add: maxIterations_def)
  then have "search utc \<lparr>minute = [1], hour = [0], dayOfMonth = [1], month = [1], dayOfWeek = [4]\<rparr>
               60000 maxIterations = Some 60000"
    by (rule search_first [OF matches_new_year])
  then show ?thesis
    unfolding getNextRunTime_def parseCron_new_year c by simp
qed

theorem getNextRunTime_shouldRun_witness:
  "getNextRunTime utc ''1 0 1 1 4'' 30500 = Some 60000 \<and> shouldRun utc ''1 0 1 1 4'' 60000"
  using getNextRunTime_new_year getNextRunTime_shouldRun [of utc "''1 0 1 1 4''" 30500 60000]
  by blast

section \<open>DAG validator: accepted definitions are acyclic and connected\<close>

subsection \<open>Termination of the two loops\<close>

lemma finite_positive [simp]: "finite (positive es m)"
  by (simp add: positive_def)

lemma relax_measure:
  assumes "x \<in> edge_target ` set es"
  shows "length (snd (relax st x)) + card (positive es (fst (relax st x)))
           \<le> length (snd st) + card (positive es (fst st))"
proof (cases "fst st x")
  case None
  then show ?thesis by (simp add: relax_def)
next
  case (Some d)
  show ?thesis
  proof (cases "d = 1")
    case True
    have "positive es ((fst st)(x \<mapsto> 0)) = positive es (fst st) - {x}"
      using Some True by (auto simp: positive_def)
    moreover have "x \<in> positive es (fst st)"
      using Some True assms by (auto simp: positive_def)
    ultimately have "card (positive es ((fst st)(x \<mapsto> 0))) + 1 = card (positive es (fst st))"
      using card.remove [of "positive es (fst st)" x] by simp
    then show ?thesis
      using Some True by (simp add: relax_def)
  next
    case False
    have "positive es ((fst st)(x \<mapsto> d - 1)) = positive es (fst st)"
      using Some False by (auto simp: positive_def)
    then show ?thesis
      using Some False by (simp add: relax_def Let_def)
  qed
qed

lemma foldl_relax_measure:
  assumes "set xs \<subseteq> edge_target ` set es"
  shows "length (snd (foldl relax st xs)) + card (positive es (fst (foldl relax st xs)))
           \<le> length (snd st) + card (positive es (fst st))"
  using assms
proof (induction xs arbitrary: st)
  case Nil
  then show ?case by simp
next
  case (Cons x xs)
  have "length (snd (foldl relax (relax st x) xs)) + card (positive es (fst (foldl relax (relax st x) xs)))
          \<le> length (snd (relax st x)) + card (positive es (fst (relax st x)))"
    using Cons by simp
  also have "\<dots> \<le> length (snd st) + card (positive es (fst st))"
    using Cons.prems by (intro relax_measure) simp
  finally show ?case by simp
qed

lemma adjacency_targets: "set (adjacency es u) \<subseteq> edge_target ` set es"
  by (auto simp: adjacency_def)

termination kahn
proof (relation "measure (\<lambda>(es, inDegree, queue, processedCount). length queue + card (positive es inDegree))")
  show "wf (measure (\<lambda>(es, inDegree, queue, processedCount). length queue + card (positive es inDegree)))"
    by simp
next
  fix es :: "WorkflowEdge list" and inDegree :: "string \<rightharpoonup> int" and current queue
    and processedCount :: nat and x
  assume "x = foldl relax (inDegree, queue) (adjacency es current)"
  then show "((es, fst x, snd x, processedCount + 1), es, inDegree, current # queue, processedCount)
        \<in> measure (\<lambda>(es, inDegree, queue, processedCount). length queue + card (positive es inDegree))"
    using foldl_relax_measure [of "adjacency es current" es "(inDegree, queue)"] adjacency_targets [of es current]
    by (simp add: case_prod_beta)
qed

termination kahn_trace
proof (relation "measure (\<lambda>(es, inDegree, queue). length queue + card (positive es inDegree))")
  show "wf (measure (\<lambda>(es, inDegree, queue). length queue + card (positive es inDegree)))"
    by simp
next
  fix es :: "WorkflowEdge list" and inDegree :: "string \<rightharpoonup> int" and current queue x
  assume "x = foldl relax (inDegree, queue) (adjacency es current)"
  then show "((es, fst x, snd x), es, inDegree, current # queue)
        \<in> measure (\<lambda>(es, inDegree, queue). length queue + card (positive es inDegree))"
    using foldl_relax_measure [of "adjacency es current" es "(inDegree, queue)"] adjacency_targets [of es current]
    by (simp add: case_prod_beta)
qed

lemma visit_measure:
  assumes "x \<in> edge_target ` set es"
  shows "length (snd (visit st x)) + card (edge_target ` set es - fst (visit st x))
           \<le> length (snd st) + card (edge_target ` set es - fst st)"
proof (cases "x \<in> fst st")
  case True
  then show ?thesis by (simp add: visit_def)
next
  case False
  have "edge_target ` set es - insert x (fst st) = (edge_target ` set es - fst st) - {x}"
    by auto
  moreover have "x \<in> edge_target ` set es - fst st"
    using False assms by simp
  ultimately have "card (edge_target ` set es - insert x (fst st)) + 1 = card (edge_target ` set es - fst st)"
    using card.remove [of "edge_target ` set es - fst st" x] by simp
  then show ?thesis
    using False by (simp add: visit_def)
qed

lemma foldl_visit_measure:
  assumes "set xs \<subseteq> edge_target ` set es"
  shows "length (snd (foldl visit st xs)) + card (edge_target ` set es - fst (foldl visit st xs))
           \<le> length (snd st) + card (edge_target ` set es - fst st)"
  using assms
proof (induction xs arbitrary: st)
  case Nil
  then show ?case by simp
next
  case (Cons x xs)
  have "length (snd (foldl visit (visit st x) xs)) + card (edge_target ` set es - fst (foldl visit (visit st x) xs))
          \<le> length (snd (visit st x)) + card (edge_target ` set es - fst (visit st x))"
    using Cons by simp
  also have "\<dots> \<le> length (snd st) + card (edge_target ` set es - fst st)"
    using Cons.prems by (intro visit_measure) simp
  finally show ?case by simp
qed

termination bfs
proof (relation "measure (\<lambda>(es, reachable, bfsQueue). length bfsQueue + card (edge_target ` set es - reachable))")
  show "wf (measure (\<lambda>(es, reachable, bfsQueue). length bfsQueue + card (edge_target ` set es - reachable)))"
    by simp
next
  fix es :: "WorkflowEdge list" and reachable :: "string set" and current bfsQueue x
  assume "x = foldl visit (reachable, bfsQueue) (adjacency es current)"
  then show "((es, fst x, snd x), es, reachable, current # bfsQueue)
        \<in> measure (\<lambda>(es, reachable, bfsQueue). length bfsQueue + card (edge_target ` set es - reachable))"
    using foldl_visit_measure [of "adjacency es current" es "(reachable, bfsQueue)"] adjacency_targets [of es current]
    by (simp add: case_prod_beta)
qed

subsection \<open>Structural checks\<close>

lemma duplicate_errors_Nil:
  "duplicate_errors msg xs seen = [] \<Longrightarrow> distinct xs \<and> set xs \<inter> seen = {}"
  by (induction xs arbitrary: seen) (auto split: if_splits)

lemma edge_reference_errors_Nil:
  "edge_reference_errors N es = [] \<Longrightarrow> e \<in> set es \<Longrightarrow> edge_source e \<in> N \<and> edge_target e \<in> N"
  by (auto simp: edge_reference_errors_def split: if_splits)

lemma length_one: "xs \<noteq> [] \<Longrightarrow> \<not> Suc 0 < length xs \<Longrightarrow> length xs = Suc 0"
  by (cases xs) auto

lemma start_end_errors_Nil:
  "start_end_errors ns = [] \<Longrightarrow> length (filter (\<lambda>n. node_type n = ''start'') ns) = 1"
  by (auto simp: start_end_errors_def Let_def split: if_splits intro: length_one)

lemma structural_errors_Nil:
  assumes "structural_errors d = []"
  shows "distinct (map node_id (nodes d))"
    and "length (filter (\<lambda>n. node_type n = ''start'') (nodes d)) = 1"
    and "\<forall>e \<in> set (edges d). edge_source e \<in> node_id ` set (nodes d) \<and>
                               edge_target e \<in> node_id ` set (nodes d)"
proof -
  have a: "duplicate_errors duplicate_node_message (map node_id (nodes d)) {} = []"
    and b: "start_end_errors (nodes d) = []"
    and c: "edge_reference_errors (set (map node_id (nodes d))) (edges d) = []"
    using assms by (simp_all only: structural_errors_def append_is_Nil_conv)
  show "distinct (map node_id (nodes d))"
    using duplicate_errors_Nil [OF a] by simp
  show "length (filter (\<lambda>n. node_type n = ''start'') (nodes d)) = 1"
    by (rule start_end_errors_Nil [OF b])
  show "\<forall>e \<in> set (edges d). edge_source e \<in> node_id ` set (nodes d) \<and>
                              edge_target e \<in> node_id ` set (nodes d)"
    using edge_reference_errors_Nil [OF c] by simp
qed

subsection \<open>The in-degree map\<close>

lemma foldl_zero:
  "foldl (\<lambda>m node. m(node_id node \<mapsto> 0::int)) m ns v =
     (if v \<in> node_id ` set ns then Some 0 else m v)"
  by (induction ns arbitrary: m) auto

lemma foldl_count:
  assumes "m v = Some k"
  shows "foldl (\<lambda>m edge. m(edge_target edge \<mapsto> (case m (edge_target edge) of None \<Rightarrow> 0 | Some d \<Rightarrow> d) + 1)) m es v
           = Some (k + int (length (filter (\<lambda>e. edge_target e = v) es)))"
  using assms by (induction es arbitrary: m k) auto

lemma initial_inDegree_eq:
  assumes "v \<in> node_id ` set ns"
  shows "initial_inDegree ns es v = Some (into es [] v)"
  unfolding initial_inDegree_def into_def
  using foldl_count [of "foldl (\<lambda>m node. m(node_id node \<mapsto> 0)) Map.empty ns" v 0 es] assms
  by (simp add: foldl_zero)

subsection \<open>One round of the peeling loop\<close>

lemma foldl_relax_fst:
  assumes "\<forall>v \<in> set xs. \<exists>d. deg v = Some d"
  shows "fst (foldl relax (deg, q) xs) v =
           (case deg v of None \<Rightarrow> None | Some d \<Rightarrow> Some (d - int (count_list xs v)))"
  using assms
proof (induction xs arbitrary: deg q)
  case Nil
  then show ?case by (simp split: option.splits)
next
  case (Cons x xs)
  obtain d where d: "deg x = Some d"
    using Cons.prems by auto
  let ?deg = "deg(x \<mapsto> d - 1)"
  let ?q = "if d - 1 = 0 then q @ [x] else q"
  have r: "relax (deg, q) x = (?deg, ?q)"
    using d by (simp add: relax_def)
  have pre: "\<forall>v \<in> set xs. \<exists>d'. ?deg v = Some d'"
    using Cons.prems by auto
  have "fst (foldl relax (deg, q) (x # xs)) v = fst (foldl relax (?deg, ?q) xs) v"
    by (simp only: foldl_Cons r)
  also have "\<dots> = (case ?deg v of None \<Rightarrow> None | Some d' \<Rightarrow> Some (d' - int (count_list xs v)))"
    by (rule Cons.IH [OF pre])
  also have "\<dots> = (case deg v of None \<Rightarrow> None | Some d' \<Rightarrow> Some (d' - int (count_list (x # xs) v)))"
    using d by (cases "v = x") (auto split: option.splits)
  finally show ?case .
qed

lemma foldl_relax_snd:
  assumes "\<forall>v \<in> set xs. \<exists>d. deg v = Some d \<and> int (count_list xs v) \<le> d"
  shows "\<exists>pushed. snd (foldl relax (deg, q) xs) = q @ pushed \<and> distinct pushed \<and>
           set pushed = {v \<in> set xs. deg v = Some (int (count_list xs v))}"
  using assms
proof (induction xs arbitrary: deg q)
  case Nil
  then show ?case by simp
next
  case (Cons x xs)
  obtain d where d: "deg x = Some d" and dx: "int (count_list xs x) + 1 \<le> d"
    using Cons.prems by auto
  let ?deg = "deg(x \<mapsto> d - 1)"
  let ?q = "if d - 1 = 0 then q @ [x] else q"
  let ?P = "\<lambda>v. deg v = Some (int (count_list (x # xs) v))"
  have r: "relax (deg, q) x = (?deg, ?q)"
    using d by (simp add: relax_def)
  have pre: "\<forall>v \<in> set xs. \<exists>d'. ?deg v = Some d' \<and> int (count_list xs v) \<le> d'"
  proof
    fix v assume v: "v \<in> set xs"
    show "\<exists>d'. ?deg v = Some d' \<and> int (count_list xs v) \<le> d'"
    proof (cases "v = x")
      case True
      then show ?thesis using dx by simp
    next
      case False
      then show ?thesis using Cons.prems v by auto
    qed
  qed
  have eq: "(?deg v = Some (int (count_list xs v))) = ?P v" for v
    using d by (cases "v = x") auto
  from Cons.IH [OF pre, of ?q] obtain pushed where
    p: "snd (foldl relax (?deg, ?q) xs) = ?q @ pushed" "distinct pushed"
       "set pushed = {v \<in> set xs. ?deg v = Some (int (count_list xs v))}"
    by blast
  have p3: "set pushed = {v \<in> set xs. ?P v}"
    unfolding p(3) eq ..
  have step: "snd (foldl relax (deg, q) (x # xs)) = ?q @ pushed"
    by (simp only: foldl_Cons r p(1))
  show ?case
  proof (cases "d - 1 = 0")
    case True
    then have d1: "d = 1" by simp
    have "count_list xs x = 0"
      using dx d1 by simp
    then have nx: "x \<notin> set xs"
      by (simp add: count_list_0_iff)
    have Px: "?P x"
      using d d1 \<open>count_list xs x = 0\<close> by simp
    have "snd (foldl relax (deg, q) (x # xs)) = q @ (x # pushed)"
      using step True by simp
    moreover have "distinct (x # pushed)"
      using p(2) p3 nx by simp
    moreover have "set (x # pushed) = {v \<in> set (x # xs). ?P v}"
      using p3 Px by auto
    ultimately show ?thesis by blast
  next
    case False
    have "x \<in> set xs \<or> \<not> ?P x"
    proof (cases "x \<in> set xs")
      case True
      then show ?thesis by simp
    next
      case nx: False
      then have "count_list xs x = 0"
        by (simp add: count_list_0_iff)
      then show ?thesis
        using d False by simp
    qed
    then have "set pushed = {v \<in> set (x # xs). ?P v}"
      using p3 by auto
    moreover have "snd (foldl relax (deg, q) (x # xs)) = q @ pushed"
      using step False by simp
    ultimately show ?thesis using p(2) by blast
  qed
qed

lemma count_list_adjacency:
  "int (count_list (adjacency es c) v)
     = int (length (filter (\<lambda>e. edge_target e = v \<and> edge_source e = c) es))"
  by (induction es) (auto simp: adjacency_def)

lemma into_snoc:
  assumes "c \<notin> set peeled"
  shows "into es (peeled @ [c]) v = into es peeled v - int (count_list (adjacency es c) v)"
  unfolding into_def count_list_adjacency
  using assms by (induction es) auto

lemma into_nonneg [simp]: "0 \<le> into es peeled v"
  by (simp add: into_def)

lemma into_mono: "into es (peeled @ [c]) v \<le> into es peeled v"
  unfolding into_def by (induction es) auto


subsection \<open>The processed nodes form a topological order\<close>

lemma into_zero: "into es peeled v = 0 \<Longrightarrow> e \<in> set es \<Longrightarrow> edge_target e = v \<Longrightarrow> edge_source e \<in> set peeled"
  by (auto simp: into_def filter_empty_conv)

lemma sources_first_snoc:
  assumes "sources_first es peeled" and "into es peeled c = 0"
  shows "sources_first es (peeled @ [c])"
  unfolding sources_first_def
proof (intro allI impI ballI)
  fix i e
  assume i: "i < length (peeled @ [c])" and e: "e \<in> set es" and t: "edge_target e = (peeled @ [c]) ! i"
  show "edge_source e \<in> set (take i (peeled @ [c]))"
  proof (cases "i < length peeled")
    case True
    then show ?thesis
      using assms(1) e t by (simp add: sources_first_def nth_append)
  next
    case False
    then have "i = length peeled" using i by simp
    then show ?thesis
      using into_zero [OF assms(2) e] t by simp
  qed
qed

lemma kahn_trace_order:
  assumes "distinct (peeled @ q)"
    and "set (peeled @ q) \<subseteq> N"
    and "edge_target ` set es \<subseteq> N"
    and "\<forall>v \<in> N. deg v = Some (into es peeled v)"
    and "\<forall>v \<in> set (peeled @ q). into es peeled v = 0"
    and "sources_first es peeled"
  shows "distinct (peeled @ kahn_trace es deg q) \<and> set (peeled @ kahn_trace es deg q) \<subseteq> N \<and>
         sources_first es (peeled @ kahn_trace es deg q)"
  using assms
proof (induction es deg q arbitrary: peeled rule: kahn_trace.induct)
  case (1 es inDegree)
  then show ?case by simp
next
  case (2 es deg c q)
  let ?adj = "adjacency es c"
  let ?st = "foldl relax (deg, q) ?adj"
  let ?next = "peeled @ [c]"
  have c_new: "c \<notin> set peeled" and cN: "c \<in> N"
    using "2.prems"(1,2) by auto
  have adjN: "set ?adj \<subseteq> N"
    using "2.prems"(3) adjacency_targets [of es c] by blast
  have snoc: "into es ?next v = into es peeled v - int (count_list ?adj v)" for v
    by (rule into_snoc [OF c_new])
  have le: "int (count_list ?adj v) \<le> into es peeled v" for v
    using snoc [of v] into_nonneg [of es ?next v] by linarith
  have pre: "\<forall>v \<in> set ?adj. \<exists>d. deg v = Some d \<and> int (count_list ?adj v) \<le> d"
    using adjN "2.prems"(4) le by auto
  then have pre': "\<forall>v \<in> set ?adj. \<exists>d. deg v = Some d"
    by blast
  have deg': "\<forall>v \<in> N. fst ?st v = Some (into es ?next v)"
    using foldl_relax_fst [OF pre', of q] "2.prems"(4) snoc by simp
  obtain pushed where
    p: "snd ?st = q @ pushed" "distinct pushed"
       "set pushed = {v \<in> set ?adj. deg v = Some (int (count_list ?adj v))}"
    using foldl_relax_snd [OF pre, of q] by blast
  have pushed_zero: "into es ?next v = 0" if "v \<in> set pushed" for v
  proof -
    have "v \<in> N" and "deg v = Some (int (count_list ?adj v))"
      using that p(3) adjN by auto
    then have "into es peeled v = int (count_list ?adj v)"
      using "2.prems"(4) by simp
    then show ?thesis using snoc [of v] by simp
  qed
  have pushed_new: "v \<notin> set (peeled @ c # q)" if "v \<in> set pushed" for v
  proof
    assume "v \<in> set (peeled @ c # q)"
    then have "into es peeled v = 0"
      using "2.prems"(5) by auto
    moreover have "v \<in> set ?adj"
      using that p(3) by simp
    then have "0 < count_list ?adj v"
      by (simp add: count_list_0_iff zero_less_iff_neq_zero)
    ultimately show False
      using le [of v] by simp
  qed
  have a1: "distinct (?next @ snd ?st)"
    using "2.prems"(1) p(1,2) pushed_new by auto
  have a2: "set (?next @ snd ?st) \<subseteq> N"
    using "2.prems"(2) p(1,3) adjN by auto
  have old_zero: "into es ?next v = 0" if "v \<in> set (peeled @ c # q)" for v
  proof -
    have "into es peeled v = 0"
      using that "2.prems"(5) by auto
    then show ?thesis
      using into_mono [of es "peeled" c v] into_nonneg [of es ?next v] by linarith
  qed
  have a5: "\<forall>v \<in> set (?next @ snd ?st). into es ?next v = 0"
    using old_zero pushed_zero p(1) by auto
  have a6: "sources_first es ?next"
    using "2.prems"(5,6) by (intro sources_first_snoc) simp_all
  have "distinct (?next @ kahn_trace es (fst ?st) (snd ?st)) \<and>
        set (?next @ kahn_trace es (fst ?st) (snd ?st)) \<subseteq> N \<and>
        sources_first es (?next @ kahn_trace es (fst ?st) (snd ?st))"
    by (rule "2.IH" [OF refl a1 a2 "2.prems"(3) deg' a5 a6])
  then show ?case
    by (simp add: Let_def)
qed

lemma kahn_count: "kahn es deg q n = n + length (kahn_trace es deg q)"
  by (induction es deg q n rule: kahn.induct) (simp_all add: Let_def)

subsection \<open>Breadth-first search reaches only reachable nodes\<close>

lemma foldl_visit_fst: "fst (foldl visit (r, q) xs) = r \<union> set xs"
  by (induction xs arbitrary: r q) (auto simp: visit_def)

lemma foldl_visit_snd: "set (snd (foldl visit (r, q) xs)) \<subseteq> set q \<union> set xs"
proof (induction xs arbitrary: r q)
  case Nil
  then show ?case by simp
next
  case (Cons a xs)
  show ?case
    using Cons.IH [of "insert a r" "q @ [a]"] Cons.IH [of r q]
    by (auto simp: visit_def)
qed

lemma adjacency_edge: "v \<in> set (adjacency es u) \<Longrightarrow> (u, v) \<in> edge_rel es"
  by (auto simp: adjacency_def edge_rel_def)

lemma bfs_sound:
  assumes "\<forall>v \<in> r. (s, v) \<in> (edge_rel es)\<^sup>*" and "set q \<subseteq> r"
  shows "\<forall>v \<in> bfs es r q. (s, v) \<in> (edge_rel es)\<^sup>*"
  using assms
proof (induction es r q rule: bfs.induct)
  case (1 es reachable)
  then show ?case by simp
next
  case (2 es r c q)
  let ?st = "foldl visit (r, q) (adjacency es c)"
  have c: "(s, c) \<in> (edge_rel es)\<^sup>*"
    using "2.prems" by simp
  have r': "fst ?st = r \<union> set (adjacency es c)" and q': "set (snd ?st) \<subseteq> set q \<union> set (adjacency es c)"
    using foldl_visit_fst [of r q "adjacency es c"] foldl_visit_snd [of r q "adjacency es c"] by simp_all
  have "\<forall>v \<in> fst ?st. (s, v) \<in> (edge_rel es)\<^sup>*"
  proof
    fix v assume "v \<in> fst ?st"
    then consider "v \<in> r" | "v \<in> set (adjacency es c)"
      using r' by auto
    then show "(s, v) \<in> (edge_rel es)\<^sup>*"
    proof cases
      case 1
      then show ?thesis using "2.prems"(1) by simp
    next
      case 2
      then show ?thesis
        using c adjacency_edge [of v es c] by (meson rtrancl.rtrancl_into_rtrancl)
    qed
  qed
  moreover have "set (snd ?st) \<subseteq> fst ?st"
    using r' q' "2.prems"(2) by auto
  ultimately have "\<forall>v \<in> bfs es (fst ?st) (snd ?st). (s, v) \<in> (edge_rel es)\<^sup>*"
    by (rule "2.IH" [OF refl])
  then show ?case
    by (simp add: Let_def)
qed


subsection \<open>Soundness of the validator\<close>

lemma validateDAG_valid:
  assumes "valid (validateDAG d)"
  shows "structural_errors d = []" and "cycle_errors d = []" and "reachability_errors d = []"
proof -
  show s: "structural_errors d = []"
    using assms by (auto simp: validateDAG_def Let_def split: if_splits)
  then have e: "cycle_errors d @
      (if length (filter (\<lambda>n. node_type n = ''start'') (nodes d)) = 1 \<and> length (cycle_errors d) = 0
       then reachability_errors d else []) @ fork_join_errors d = []"
    using assms by (simp add: validateDAG_def Let_def split: if_splits)
  then show c: "cycle_errors d = []"
    by simp
  show "reachability_errors d = []"
    using e c structural_errors_Nil(2) [OF s] by simp
qed

lemma kahn_topological:
  assumes "structural_errors d = []" and "cycle_errors d = []"
  shows "\<exists>order. topological_ordering d order"
proof -
  let ?N = "node_id ` set (nodes d)"
  let ?es = "edges d"
  let ?deg = "initial_inDegree (nodes d) ?es"
  let ?q = "filter (\<lambda>nodeId. ?deg nodeId = Some 0) (map node_id (nodes d))"
  let ?T = "kahn_trace ?es ?deg ?q"
  note s = structural_errors_Nil [OF assms(1)]
  have len: "length ?T = length (nodes d)"
    using assms(2) kahn_count [of ?es ?deg ?q 0]
    by (simp add: cycle_errors_def Let_def split: if_splits)
  have q0: "\<forall>v \<in> set ([] @ ?q). into ?es [] v = 0"
    using initial_inDegree_eq [of _ "nodes d" ?es] by auto
  have deg: "\<forall>v \<in> ?N. ?deg v = Some (into ?es [] v)"
    using initial_inDegree_eq [of _ "nodes d" ?es] by blast
  have "distinct ([] @ kahn_trace ?es ?deg ?q) \<and> set ([] @ kahn_trace ?es ?deg ?q) \<subseteq> ?N \<and>
        sources_first ?es ([] @ kahn_trace ?es ?deg ?q)"
  proof (rule kahn_trace_order [OF _ _ _ deg q0])
    show "distinct ([] @ ?q)"
      using s(1) by simp
    show "set ([] @ ?q) \<subseteq> ?N"
      by auto
    show "edge_target ` set ?es \<subseteq> ?N"
      using s(3) by auto
    show "sources_first ?es []"
      by (simp add: sources_first_def)
  qed
  then have T: "distinct ?T" "set ?T \<subseteq> ?N" "sources_first ?es ?T"
    by simp_all
  have "card ?N = length (nodes d)"
    using s(1) distinct_card [of "map node_id (nodes d)"] by simp
  then have "card (set ?T) = card ?N"
    using T(1) len by (simp add: distinct_card)
  then have setT: "set ?T = ?N"
    using T(2) by (simp add: card_subset_eq)
  have "\<exists>i j. i < j \<and> j < length ?T \<and> ?T ! i = edge_source e \<and> ?T ! j = edge_target e"
    if e: "e \<in> set ?es" for e
  proof -
    have "edge_target e \<in> set ?T"
      using s(3) e setT by blast
    then obtain j where j: "j < length ?T" "?T ! j = edge_target e"
      by (auto simp: in_set_conv_nth)
    then have "edge_source e \<in> set (take j ?T)"
      using T(3) e by (simp add: sources_first_def)
    then obtain i where "i < j" "?T ! i = edge_source e"
      using j(1) by (auto simp: in_set_conv_nth)
    then show ?thesis
      using j by blast
  qed
  then have "topological_ordering d ?T"
    using T(1) len setT by (simp add: topological_ordering_def)
  then show ?thesis ..
qed

lemma topological_acyclic:
  assumes "topological_ordering d order"
  shows "acyclic (edge_rel (edges d))"
proof -
  have dist: "distinct order"
    using assms by (simp add: topological_ordering_def)
  have step: "\<exists>i j. i < j \<and> j < length order \<and> order ! i = a \<and> order ! j = b"
    if "(a, b) \<in> (edge_rel (edges d))\<^sup>+" for a b
    using that
  proof (induction rule: trancl.induct)
    case (r_into_trancl a b)
    then show ?case
      using assms by (auto simp: topological_ordering_def edge_rel_def)
  next
    case (trancl_into_trancl a b c)
    then obtain i j where ij: "i < j" "j < length order" "order ! i = a" "order ! j = b"
      by blast
    obtain i' j' where ij': "i' < j'" "j' < length order" "order ! i' = b" "order ! j' = c"
      using trancl_into_trancl.hyps(2) assms by (auto simp: topological_ordering_def edge_rel_def)
    have il: "i' < length order"
      using ij'(1,2) by simp
    have eq: "order ! i' = order ! j"
      by (simp only: ij(4) ij'(3))
    have "i' = j"
      by (rule iffD1 [OF nth_eq_iff_index_eq [OF dist il ij(2)] eq])
    then have "i < j'"
      using ij(1) ij'(1) by simp
    then show ?case
      using ij(3) ij'(2,4) by blast
  qed
  show ?thesis
  proof (rule acyclicI, rule allI, rule notI)
    fix a assume "(a, a) \<in> (edge_rel (edges d))\<^sup>+"
    then obtain i j where ij: "i < j" "j < length order" "order ! i = a" "order ! j = a"
      using step by blast
    have il: "i < length order"
      using ij(1,2) by simp
    have eq: "order ! i = order ! j"
      by (simp only: ij(3,4))
    have "i = j"
      by (rule iffD1 [OF nth_eq_iff_index_eq [OF dist il ij(2)] eq])
    then show False
      using ij(1) by simp
  qed
qed

lemma bfs_reaches:
  assumes "structural_errors d = []" and "reachability_errors d = []"
  shows "\<exists>s. map node_id (filter (\<lambda>n. node_type n = ''start'') (nodes d)) = [s] \<and>
             (\<forall>n \<in> set (nodes d). (s, node_id n) \<in> (edge_rel (edges d))\<^sup>*)"
proof -
  have "length (filter (\<lambda>n. node_type n = ''start'') (nodes d)) = 1"
    by (rule structural_errors_Nil(2) [OF assms(1)])
  then obtain startNode where st: "filter (\<lambda>n. node_type n = ''start'') (nodes d) = [startNode]"
    by (auto simp: length_Suc_conv)
  let ?s = "node_id startNode"
  have all: "\<forall>n \<in> set (nodes d). node_id n \<in> bfs (edges d) {?s} [?s]"
    using assms(2) st by (auto simp: reachability_errors_def Let_def split: if_splits)
  have "\<forall>v \<in> bfs (edges d) {?s} [?s]. (?s, v) \<in> (edge_rel (edges d))\<^sup>*"
    by (rule bfs_sound) simp_all
  then show ?thesis
    using all st by auto
qed

text \<open>
  C5. For every definition on which \<open>validateDAG\<close> returns \<open>valid = true\<close>: the
  node ids can be listed, each once, so that every edge goes from an earlier to a later
  node (a topological ordering), the edge relation is acyclic, there is exactly one start
  node, and every node is reachable from it along the edges.
\<close>

theorem validateDAG_sound:
  assumes "valid (validateDAG d)"
  shows "(\<exists>order. topological_ordering d order) \<and>
         acyclic (edge_rel (edges d)) \<and>
         (\<exists>s. map node_id (filter (\<lambda>n. node_type n = ''start'') (nodes d)) = [s] \<and>
              (\<forall>n \<in> set (nodes d). (s, node_id n) \<in> (edge_rel (edges d))\<^sup>*))"
proof -
  note v = validateDAG_valid [OF assms]
  obtain order where o: "topological_ordering d order"
    using kahn_topological [OF v(1,2)] by blast
  show ?thesis
    using o topological_acyclic [OF o] bfs_reaches [OF v(1,3)] by blast
qed

theorem validateDAG_sound_witness:
  "valid (validateDAG (wf_definitionJson linear_workflow)) \<and>
   (\<exists>order. topological_ordering (wf_definitionJson linear_workflow) order) \<and>
   acyclic (edge_rel (edges (wf_definitionJson linear_workflow)))"
proof -
  have v: "valid (validateDAG (wf_definitionJson linear_workflow))"
    by code_simp
  show ?thesis
    using v validateDAG_sound [OF v] by blast
qed

end
